theory Spec2Isabelle
  imports Main "HOL-Library.Multiset"
begin

section \<open>Discovery of version directories\<close>

text \<open>
  The runner lists the migrations directory, keeps the directories whose name starts with
  \<open>v\<close> and sorts them with the comparator
  \<^verbatim>\<open>(a, b) => parseInt(a.substring(1)) - parseInt(b.substring(1))\<close>.
  A file name is a \<open>string\<close>, the bytes of its UTF-8 form; a JavaScript number is an
  \<open>int option\<close>, where \<open>None\<close> is \<open>NaN\<close>. Integers are exact here, so the rounding of
  numbers beyond \<open>2^53\<close> is outside the model.
\<close>

definition whiteSpace :: "string list" where
  \<comment> \<open>the characters that \<open>parseInt\<close> strips from the start, in UTF-8: TAB, LF, VT, FF, CR,
      SP, U+00A0, U+1680, U+2000 to U+200A, U+2028, U+2029, U+202F, U+205F, U+3000, U+FEFF\<close>
  "whiteSpace =
     [[CHR 0x09], [CHR 0x0A], [CHR 0x0B], [CHR 0x0C], [CHR 0x0D], [CHR 0x20],
      [CHR 0xC2, CHR 0xA0],
      [CHR 0xE1, CHR 0x9A, CHR 0x80],
      [CHR 0xE2, CHR 0x80, CHR 0x80], [CHR 0xE2, CHR 0x80, CHR 0x81],
      [CHR 0xE2, CHR 0x80, CHR 0x82], [CHR 0xE2, CHR 0x80, CHR 0x83],
      [CHR 0xE2, CHR 0x80, CHR 0x84], [CHR 0xE2, CHR 0x80, CHR 0x85],
      [CHR 0xE2, CHR 0x80, CHR 0x86], [CHR 0xE2, CHR 0x80, CHR 0x87],
      [CHR 0xE2, CHR 0x80, CHR 0x88], [CHR 0xE2, CHR 0x80, CHR 0x89],
      [CHR 0xE2, CHR 0x80, CHR 0x8A],
      [CHR 0xE2, CHR 0x80, CHR 0xA8], [CHR 0xE2, CHR 0x80, CHR 0xA9],
      [CHR 0xE2, CHR 0x80, CHR 0xAF], [CHR 0xE2, CHR 0x81, CHR 0x9F],
      [CHR 0xE3, CHR 0x80, CHR 0x80], [CHR 0xEF, CHR 0xBB, CHR 0xBF]]"

function trimStart :: "string \<Rightarrow> string" where
  "trimStart s =
     (case find (\<lambda>w. take (length w) s = w) whiteSpace of
        None \<Rightarrow> s
      | Some w \<Rightarrow> trimStart (drop (length w) s))"
  by pat_completeness auto
termination
proof (relation "measure length")
  show "wf (measure length)" by simp
next
  fix s w :: string
  assume "find (\<lambda>w. take (length w) s = w) whiteSpace = Some w"
  then have w: "w \<in> set whiteSpace" and t: "take (length w) s = w"
    by (auto simp: find_Some_iff)
  from w have "w \<noteq> []" by (auto simp: whiteSpace_def)
  with t have "s \<noteq> []" by auto
  with \<open>w \<noteq> []\<close> show "(drop (length w) s, s) \<in> measure length" by simp
qed

definition digitValue :: "char \<Rightarrow> nat option" where
  \<comment> \<open>the value of a digit in radix 16 at most; letters count in either case\<close>
  "digitValue c =
     (let n = of_char c :: nat in
      if 48 \<le> n \<and> n \<le> 57 then Some (n - 48)
      else if 97 \<le> n \<and> n \<le> 102 then Some (n - 87)
      else if 65 \<le> n \<and> n \<le> 70 then Some (n - 55)
      else None)"

definition isRadixDigit :: "nat \<Rightarrow> char \<Rightarrow> bool" where
  "isRadixDigit R c = (case digitValue c of None \<Rightarrow> False | Some d \<Rightarrow> d < R)"

definition digitsValue :: "nat \<Rightarrow> string \<Rightarrow> nat" where
  \<comment> \<open>the mathematical integer written by a string of radix-\<open>R\<close> digits\<close>
  "digitsValue R Z = foldl (\<lambda>acc c. acc * R + the (digitValue c)) 0 Z"

definition parseInt :: "string \<Rightarrow> int option" where
  \<comment> \<open>\<open>parseInt(s)\<close> with no radix argument: strip leading white space, read a sign, read
      a \<open>0x\<close>/\<open>0X\<close> prefix (then the radix is 16, otherwise 10), take the longest prefix of
      digits; \<open>NaN\<close> when that prefix is empty\<close>
  "parseInt inputString =
     (let S = trimStart inputString;
          sign = (if S \<noteq> [] \<and> hd S = CHR ''-'' then - 1 else 1 :: int);
          S1 = (if S \<noteq> [] \<and> (hd S = CHR ''+'' \<or> hd S = CHR ''-'') then tl S else S);
          hex = (take 2 S1 = ''0x'' \<or> take 2 S1 = ''0X'');
          R = (if hex then 16 else 10 :: nat);
          S2 = (if hex then drop 2 S1 else S1);
          Z = takeWhile (isRadixDigit R) S2
      in if Z = [] then None else Some (sign * int (digitsValue R Z)))"

definition startsWith :: "string \<Rightarrow> string \<Rightarrow> bool" where
  "startsWith s p = (take (length p) s = p)"

definition substring :: "nat \<Rightarrow> string \<Rightarrow> string" where
  \<comment> \<open>\<open>s.substring(n)\<close>\<close>
  "substring n s = drop n s"

definition versionNumber :: "string \<Rightarrow> int option" where
  \<comment> \<open>\<open>parseInt(a.substring(1))\<close>\<close>
  "versionNumber a = parseInt (substring 1 a)"

definition compareVersions :: "string \<Rightarrow> string \<Rightarrow> int option" where
  \<comment> \<open>the comparator \<open>numA - numB\<close>; a subtraction with \<open>NaN\<close> is \<open>NaN\<close>\<close>
  "compareVersions a b =
     (case (versionNumber a, versionNumber b) of
        (Some numA, Some numB) \<Rightarrow> Some (numA - numB)
      | _ \<Rightarrow> None)"

definition sortCompare :: "('a \<Rightarrow> 'a \<Rightarrow> int option) \<Rightarrow> 'a \<Rightarrow> 'a \<Rightarrow> int" where
  \<comment> \<open>\<open>Array.prototype.sort\<close> reads a comparator result \<open>NaN\<close> as \<open>+0\<close>\<close>
  "sortCompare comparefn x y = (case comparefn x y of None \<Rightarrow> 0 | Some v \<Rightarrow> v)"

fun sortInsert :: "('a \<Rightarrow> 'a \<Rightarrow> int option) \<Rightarrow> 'a \<Rightarrow> 'a list \<Rightarrow> 'a list" where
  "sortInsert comparefn x [] = [x]"
| "sortInsert comparefn x (y # ys) =
     (if sortCompare comparefn x y \<le> 0 then x # y # ys
      else y # sortInsert comparefn x ys)"

definition arraySort :: "('a \<Rightarrow> 'a \<Rightarrow> int option) \<Rightarrow> 'a list \<Rightarrow> 'a list" where
  \<comment> \<open>\<open>Array.prototype.sort(comparefn)\<close> as a stable insertion sort. For a consistent
      comparator every stable sort gives this result. For an inconsistent one (a \<open>NaN\<close>
      among the keys) JavaScript leaves the order to the implementation: the order this
      function gives then is not the runtime's, and nothing below rests on it\<close>
  "arraySort comparefn xs = foldr (sortInsert comparefn) xs []"

definition isVersionDir :: "(string \<Rightarrow> bool) \<Rightarrow> string \<Rightarrow> bool" where
  \<comment> \<open>the filter: \<open>dir.startsWith('v') && statSync(join(migrationsDir, dir)).isDirectory()\<close>\<close>
  "isVersionDir isDirectory dir = (startsWith dir ''v'' \<and> isDirectory dir)"

definition versionDirs :: "(string \<Rightarrow> bool) \<Rightarrow> string list \<Rightarrow> string list" where
  \<comment> \<open>\<open>readdirSync(migrationsDir).filter(...).sort(...)\<close>\<close>
  "versionDirs isDirectory entries =
     arraySort compareVersions (filter (isVersionDir isDirectory) entries)"

definition isDecimalInteger :: "string \<Rightarrow> bool" where
  \<comment> \<open>a name of the form \<open>v<N>\<close> has a non-empty string of decimal digits after the \<open>v\<close>\<close>
  "isDecimalInteger s = (s \<noteq> [] \<and> (\<forall>c \<in> set s. c \<in> set ''0123456789''))"

definition numeralStart :: "string \<Rightarrow> bool" where
  \<comment> \<open>the text has a numeral at its start: after leading white space and at most one sign
      comes a decimal digit, or \<open>0x\<close> or \<open>0X\<close> with a hexadecimal digit after it\<close>
  "numeralStart s =
     (let t = trimStart s;
          u = (if t \<noteq> [] \<and> (hd t = CHR ''+'' \<or> hd t = CHR ''-'') then tl t else t)
      in if take 2 u = ''0x'' \<or> take 2 u = ''0X''
         then 2 < length u \<and> isRadixDigit 16 (u ! 2)
         else u \<noteq> [] \<and> isRadixDigit 10 (hd u))"

section \<open>The attribute-availability poller\<close>

text \<open>
  \<open>waitForAttributes\<close> reads the snapshot, and for each table asks the remote service for the
  attribute list until no attribute is pending. The remote service is an oracle: the answer
  to the \<open>n\<close>-th \<open>listAttributes\<close> call of the run, for a database and a collection. What
  the poller does is a trace of \<open>poll_event\<close>s: its console output, the remote calls and
  the timers it waits for.
\<close>

record attribute =
  key :: string
  status :: string

record queryError =
  code :: "int option"
  message :: string

datatype response = Attributes "attribute list" | Failure queryError

record table =
  tableId :: string  \<comment> \<open>\<open>table.$id\<close>\<close>
  name :: string
  databaseId :: "string option"

record schema =
  tables :: "table list option"

datatype poll_event =
    LogPollingStatus  \<comment> \<open>Polling attribute status...\<close>
  | ErrorParseSnapshot  \<comment> \<open>Failed to parse snapshot for attribute polling\<close>
  | WarnNoDatabaseId string string  \<comment> \<open>Table name (id) has no databaseId. Skipping polling.\<close>
  | LogChecking string string  \<comment> \<open>Checking attributes for table name (id)...\<close>
  | ListAttributes string string  \<comment> \<open>the call \<open>databases.listAttributes(databaseId, collectionId)\<close>\<close>
  | LogWaiting nat  \<comment> \<open>Waiting for n attributes to be available...\<close>
  | Sleep nat  \<comment> \<open>\<open>setTimeout(resolve, ms)\<close>, awaited\<close>
  | WarnServerError string string  \<comment> \<open>Failed to list attributes ...: Server Error. Skipping polling ...\<close>
  | WarnRetrying string string string  \<comment> \<open>Failed to list attributes ...: message. Retrying...\<close>

type_synonym remote = "nat \<Rightarrow> string \<Rightarrow> string \<Rightarrow> response"

definition truthy :: "string option \<Rightarrow> bool" where
  \<comment> \<open>a string-valued property read as a condition: \<open>undefined\<close> and \<open>''\<close> are falsy\<close>
  "truthy s = (case s of None \<Rightarrow> False | Some t \<Rightarrow> t \<noteq> [])"

definition pendingAttributes :: "attribute list \<Rightarrow> attribute list" where
  \<comment> \<open>\<open>attributes.filter((attr) => attr.status !== 'available')\<close>\<close>
  "pendingAttributes attributes = filter (\<lambda>attr. status attr \<noteq> ''available'') attributes"

definition emit :: "'e list \<Rightarrow> 'e list \<times> nat \<Rightarrow> ('e list \<times> nat) option" where
  \<comment> \<open>put the events that happened first in front of the rest of the trace\<close>
  "emit es r = Some (es @ fst r, snd r)"

partial_function (option) pollLoop ::
  "remote \<Rightarrow> string \<Rightarrow> string \<Rightarrow> nat \<Rightarrow> (poll_event list \<times> nat) option" where
  "pollLoop listAttributes dbId collId n =
     (case listAttributes n dbId collId of
        Attributes attributes \<Rightarrow>
          if length (pendingAttributes attributes) = 0
          then Some ([ListAttributes dbId collId], Suc n)
          else Option.bind (pollLoop listAttributes dbId collId (Suc n))
                 (emit [ListAttributes dbId collId,
                        LogWaiting (length (pendingAttributes attributes)), Sleep 2000])
      | Failure e \<Rightarrow>
          if code e = Some 500
          then Some ([ListAttributes dbId collId,
                      WarnServerError collId dbId], Suc n)
          else Option.bind (pollLoop listAttributes dbId collId (Suc n))
                 (emit [ListAttributes dbId collId,
                        WarnRetrying collId dbId (message e), Sleep 2000]))"

declare pollLoop.simps [code]

definition pollTable :: "remote \<Rightarrow> table \<Rightarrow> nat \<Rightarrow> (poll_event list \<times> nat) option" where
  \<comment> \<open>the body of \<open>for (const table of tables)\<close>\<close>
  "pollTable listAttributes t n =
     (if \<not> truthy (databaseId t)
      then Some ([WarnNoDatabaseId (name t) (tableId t)], n)
      else Option.bind (pollLoop listAttributes (the (databaseId t)) (tableId t) n)
             (emit [LogChecking (name t) (tableId t)]))"

fun pollTables :: "remote \<Rightarrow> table list \<Rightarrow> nat \<Rightarrow> (poll_event list \<times> nat) option" where
  "pollTables listAttributes [] n = Some ([], n)"
| "pollTables listAttributes (t # ts) n =
     (case pollTable listAttributes t n of
        None \<Rightarrow> None
      | Some (es, m) \<Rightarrow> Option.bind (pollTables listAttributes ts m) (emit es))"

definition snapshotTables :: "schema \<Rightarrow> table list" where
  \<comment> \<open>\<open>schema.tables || []\<close>\<close>
  "snapshotTables sch = (case tables sch of None \<Rightarrow> [] | Some ts \<Rightarrow> ts)"

definition waitForAttributes ::
  "remote \<Rightarrow> (string \<Rightarrow> schema option) \<Rightarrow> string \<Rightarrow> nat \<Rightarrow> (poll_event list \<times> nat) option" where
  \<comment> \<open>\<open>readSnapshot path\<close> is \<open>JSON.parse(fs.readFileSync(path, 'utf8'))\<close>, \<open>None\<close> when
      that throws. The map \<open>dbMap\<close> built from \<open>schema.tablesDB\<close> is never read and is left out\<close>
  "waitForAttributes listAttributes readSnapshot snapshotPath n =
     (case readSnapshot snapshotPath of
        None \<Rightarrow> Some ([LogPollingStatus, ErrorParseSnapshot], n)
      | Some sch \<Rightarrow>
          Option.bind
            (pollTables listAttributes (snapshotTables sch) n)
            (emit [LogPollingStatus]))"

definition sleeps :: "poll_event list \<Rightarrow> nat list" where
  \<comment> \<open>the timers of a trace, in order\<close>
  "sleeps es = concat (map (\<lambda>e. case e of Sleep ms \<Rightarrow> [ms] | _ \<Rightarrow> []) es)"

definition queriesIssued :: "poll_event list \<Rightarrow> (string \<times> string) list" where
  \<comment> \<open>the remote calls of a trace, in order\<close>
  "queriesIssued es = concat (map (\<lambda>e. case e of ListAttributes d c \<Rightarrow> [(d, c)] | _ \<Rightarrow> []) es)"

definition allAvailable :: "response \<Rightarrow> bool" where
  "allAvailable r = (case r of Attributes attributes \<Rightarrow> pendingAttributes attributes = [] | Failure e \<Rightarrow> False)"

fun availableOnFirstQuery :: "remote \<Rightarrow> table list \<Rightarrow> nat \<Rightarrow> bool" where
  \<comment> \<open>every polled table of the list answers its first query, the \<open>n\<close>-th of the run and
      onwards, one per table, with all attributes available\<close>
  "availableOnFirstQuery listAttributes [] n = True"
| "availableOnFirstQuery listAttributes (t # ts) n =
     (if \<not> truthy (databaseId t) then availableOnFirstQuery listAttributes ts n
      else allAvailable (listAttributes n (the (databaseId t)) (tableId t))
           \<and> availableOnFirstQuery listAttributes ts (Suc n))"

definition polledTables :: "table list \<Rightarrow> nat" where
  "polledTables ts = length (filter (\<lambda>t. truthy (databaseId t)) ts)"

definition exampleTables :: "table list" where
  \<comment> \<open>three tables of a snapshot: one without a parent database, two in database \<open>main\<close>\<close>
  "exampleTables =
     [\<lparr>tableId = ''orphan'', name = ''Orphan'', databaseId = None\<rparr>,
      \<lparr>tableId = ''broken'', name = ''Broken'', databaseId = Some ''main''\<rparr>,
      \<lparr>tableId = ''flaky'', name = ''Flaky'', databaseId = Some ''main''\<rparr>]"

definition exampleRemote :: remote where
  \<comment> \<open>a remote service that answers 500 for the collection \<open>broken\<close>, fails once with 503
      on the second call of the run, and otherwise reports one available attribute\<close>
  "exampleRemote n dbId collId =
     (if collId = ''broken'' then Failure \<lparr>code = Some 500, message = ''Server Error''\<rparr>
      else if n = 1 then Failure \<lparr>code = Some 503, message = ''Service Unavailable''\<rparr>
      else Attributes [\<lparr>key = ''title'', status = ''available''\<rparr>])"

definition settlingRemote :: remote where
  \<comment> \<open>a remote service whose only pending attribute, \<open>body\<close> of the collection \<open>posts\<close>,
      is still processing at the first call of the run and available afterwards\<close>
  "settlingRemote n dbId collId =
     (if collId = ''posts'' \<and> n = 0
      then Attributes [\<lparr>key = ''title'', status = ''available''\<rparr>,
                       \<lparr>key = ''body'', status = ''processing''\<rparr>]
      else Attributes [\<lparr>key = ''title'', status = ''available''\<rparr>,
                       \<lparr>key = ''body'', status = ''available''\<rparr>])"

definition settlingSnapshot :: "string \<Rightarrow> schema option" where
  "settlingSnapshot path =
     Some \<lparr>tables = Some [\<lparr>tableId = ''posts'', name = ''Posts'', databaseId = Some ''main''\<rparr>,
                            \<lparr>tableId = ''tags'', name = ''Tags'', databaseId = Some ''main''\<rparr>]\<rparr>"

section \<open>Pushing a snapshot\<close>

text \<open>
  \<open>pushSnapshot\<close> works on the files of the project root. The file system is a map from
  paths to contents. The schema tool is an oracle \<open>execAsync command cwd files\<close>: whether
  the command exits with status zero, and the files it leaves. Reading the snapshot,
  \<open>JSON.parse\<close>, the assignment of \<open>projectId\<close> and \<open>JSON.stringify\<close> are one
  parameter \<open>rewriteProjectId text projectId\<close>, \<open>None\<close> when one of them throws.
  Console output is not part of this model, and the file operations fail in no other way
  than a missing file.
\<close>

type_synonym fileSystem = "string \<Rightarrow> string option"

type_synonym shell = "string \<Rightarrow> string \<Rightarrow> fileSystem \<Rightarrow> bool \<times> fileSystem"

definition SNAPSHOT_FILENAME :: string where
  "SNAPSHOT_FILENAME = ''appwrite.config.json''"

definition RESOURCES :: "string list" where
  "RESOURCES = [''tables'', ''buckets'', ''teams'', ''topics'']"

definition pathJoin :: "string \<Rightarrow> string \<Rightarrow> string" where
  \<comment> \<open>\<open>path.join(a, b)\<close> for segments that need no normalising\<close>
  "pathJoin a b = a @ ''/'' @ b"

definition existsSync :: "fileSystem \<Rightarrow> string \<Rightarrow> bool" where
  "existsSync files path = (files path \<noteq> None)"

definition copyFileSync :: "string \<Rightarrow> string \<Rightarrow> fileSystem \<Rightarrow> fileSystem" where
  \<comment> \<open>every call is guarded by \<open>existsSync\<close> on the source, so the source is there\<close>
  "copyFileSync src dest files = files(dest := files src)"

definition writeFileSync :: "string \<Rightarrow> string \<Rightarrow> fileSystem \<Rightarrow> fileSystem" where
  "writeFileSync path text files = files(path \<mapsto> text)"

definition unlinkSync :: "string \<Rightarrow> fileSystem \<Rightarrow> fileSystem" where
  "unlinkSync path files = files(path := None)"

definition isAsciiWhiteSpace :: "char \<Rightarrow> bool" where
  "isAsciiWhiteSpace c = (c \<in> {CHR 0x09, CHR 0x0A, CHR 0x0B, CHR 0x0C, CHR 0x0D, CHR 0x20})"

definition trim :: "string \<Rightarrow> string" where
  \<comment> \<open>\<open>s.trim()\<close> for the command line, which is ASCII\<close>
  "trim s = rev (dropWhile isAsciiWhiteSpace (rev (dropWhile isAsciiWhiteSpace s)))"

definition pushCommand :: "string \<Rightarrow> string" where
  "pushCommand resource =
     (let extraFlags = (if resource = ''tables'' then ''--attempts 60'' else [])
      in trim (''appwrite push '' @ resource @ '' --all --force '' @ extraFlags))"

datatype push_error = SnapshotNotFound string | SnapshotUnreadable | PushFailed string

datatype push_outcome = Returned | Threw push_error

fun pushResources :: "shell \<Rightarrow> string \<Rightarrow> string list \<Rightarrow> fileSystem \<Rightarrow> string option \<times> fileSystem" where
  \<comment> \<open>the loop over \<open>RESOURCES\<close>; the first failing resource ends it\<close>
  "pushResources execAsync rootDir [] files = (None, files)"
| "pushResources execAsync rootDir (resource # rest) files =
     (case execAsync (pushCommand resource) rootDir files of
        (True, files') \<Rightarrow> pushResources execAsync rootDir rest files'
      | (False, files') \<Rightarrow> (Some resource, files'))"

definition pushSnapshot ::
  "(string \<Rightarrow> string \<Rightarrow> string option) \<Rightarrow> shell \<Rightarrow> string \<Rightarrow> string \<Rightarrow> string \<Rightarrow> fileSystem
     \<Rightarrow> push_outcome \<times> fileSystem" where
  "pushSnapshot rewriteProjectId execAsync rootDir snapshotPath projectId files =
     (let rootConfig = pathJoin rootDir SNAPSHOT_FILENAME in
      if \<not> existsSync files snapshotPath then (Threw (SnapshotNotFound snapshotPath), files)
      else
        let backupPath = rootConfig @ ''.bak'';
            originalExists = existsSync files rootConfig;
            files1 = (if originalExists then copyFileSync rootConfig backupPath files else files)
        in case Option.bind (files1 snapshotPath) (\<lambda>text. rewriteProjectId text projectId) of
             None \<Rightarrow> (Threw SnapshotUnreadable, files1)
           | Some snapshotData \<Rightarrow>
               let files2 = writeFileSync rootConfig snapshotData files1;
                   pushed = pushResources execAsync rootDir RESOURCES files2;
                   files3 = snd pushed;
                   \<comment> \<open>\<open>catch\<close>: restore the backup when a push failed\<close>
                   files4 = (if fst pushed \<noteq> None \<and> originalExists \<and> existsSync files3 backupPath
                             then copyFileSync backupPath rootConfig files3 else files3);
                   \<comment> \<open>\<open>finally\<close>: restore the original state\<close>
                   files5 = (if originalExists
                             then (if existsSync files4 backupPath
                                   then unlinkSync backupPath (copyFileSync backupPath rootConfig files4)
                                   else files4)
                             else (if existsSync files4 rootConfig
                                   then unlinkSync rootConfig files4 else files4))
               in (case fst pushed of None \<Rightarrow> Returned | Some resource \<Rightarrow> Threw (PushFailed resource),
                   files5))"

definition rewriteSample :: "string \<Rightarrow> string \<Rightarrow> string option" where
  \<comment> \<open>the rewriting on two texts: the empty object \<open>{}\<close>, and a text that is not JSON, on
      which \<open>JSON.parse\<close> throws a SyntaxError\<close>
  \<open>rewriteSample text projectId =
     (if text = ''{}'' then Some (''{ "projectId": "'' @ projectId @ ''" }'') else None)\<close>

definition idleShell :: shell where
  \<comment> \<open>a schema tool that succeeds and leaves the files alone\<close>
  "idleShell command cwd files = (True, files)"

definition projectFiles :: fileSystem where
  \<comment> \<open>a project root with a working snapshot, and a version whose snapshot is not JSON\<close>
  \<open>projectFiles =
     [''/app/appwrite.config.json'' \<mapsto> ''{ "projectId": "dev" }'',
      ''/app/appwrite/migration/v1/appwrite.config.json'' \<mapsto> ''not json'']\<close>

section \<open>The migration runner\<close>

text \<open>
  \<open>runMigrations\<close> is modelled over an environment of oracles for what it asks of the file
  system, the module loader, the shell and the schema tool, and over the tracking
  collection of the remote document store. A run yields an outcome, the trace of its
  console output and calls, the tracking collection it leaves and the number of
  \<open>listAttributes\<close> calls made; \<open>None\<close> is a run whose poller never returns.
  The configuration is an input: \<open>loadConfig\<close> is not part of this model. The runner
  calls \<open>pushSnapshot\<close> with the snapshot path alone, while the function above takes the
  configuration too; the call is therefore an oracle of the environment, which says
  whether it resolves. An \<open>up\<close> action is what awaiting it does: it resolves or throws.
\<close>

record config =
  endpoint :: string
  projectId :: string
  apiKey :: string
  migrationCollectionId :: string
  database :: string
  backupCommand :: "string option"

datatype action = Resolves | Throws

record migration =
  id_m :: "string option"  \<comment> \<open>the field \<open>id\<close>\<close>
  description :: "string option"
  requiresBackup :: "bool option"
  up :: "action option"
  down :: "action option"

datatype default_export =
    NoDefault  \<comment> \<open>the module has no default export, or one that is \<open>null\<close> or \<open>undefined\<close>\<close>
  | Primitive  \<comment> \<open>the default export is not an object: it has no \<open>id\<close>\<close>
  | Definition migration

datatype import_result =
    ImportThrows
  | Module default_export migration  \<comment> \<open>the default export, and the named exports\<close>

definition moduleDefault :: "default_export \<Rightarrow> migration \<Rightarrow> migration option" where
  \<comment> \<open>\<open>(migrationModule as any).default\<close>. The loader (\<open>createJiti\<close>, \<open>jiti.import\<close>) wraps
      the module for interoperability: \<open>.default\<close> is the default export, and for a module
      without one it is the module itself, whose fields are the named exports. \<open>None\<close> is a
      value that is falsy or has no \<open>id\<close>\<close>
  "moduleDefault d namedExports =
     (case d of NoDefault \<Rightarrow> Some namedExports | Primitive \<Rightarrow> None | Definition m \<Rightarrow> Some m)"

datatype remote_store =
    Unavailable "int option"  \<comment> \<open>every call fails with this error code\<close>
  | NoCollection  \<comment> \<open>the database or the collection is missing: error code 404\<close>
  | Collection "(string \<times> string) list"  \<comment> \<open>the documents: key and \<open>name\<close>\<close>

record environment =
  cwd :: string
  cliConfigured :: bool  \<comment> \<open>\<open>configureClient(config)\<close> resolves\<close>
  pathExists :: "string \<Rightarrow> bool"  \<comment> \<open>\<open>fs.existsSync\<close>\<close>
  readdirSync :: "string \<Rightarrow> string list"
  isDirectory :: "string \<Rightarrow> bool"  \<comment> \<open>\<open>fs.statSync(path).isDirectory()\<close>\<close>
  jitiImport :: "string \<Rightarrow> import_result"
  execAsync :: "string \<Rightarrow> bool"  \<comment> \<open>the shell command exits with status zero\<close>
  pushSnapshotResolves :: "string \<Rightarrow> bool"  \<comment> \<open>\<open>pushSnapshot(snapshotPath)\<close> resolves\<close>
  readSnapshot :: "string \<Rightarrow> schema option"
  listAttributes :: remote

datatype event =
    LogStarting  \<comment> \<open>Starting migration process...\<close>
  | LogConfiguringCli  \<comment> \<open>Configuring Appwrite CLI...\<close>
  | ConfigureClient  \<comment> \<open>the call \<open>configureClient(config)\<close>\<close>
  | LogCliConfigured  \<comment> \<open>Appwrite CLI configured successfully.\<close>
  | ErrorMigrationsDirNotFound string
  | LogFoundVersions nat  \<comment> \<open>Found n versions.\<close>
  | ListDocuments  \<comment> \<open>the call \<open>databases.listDocuments\<close> of \<open>getAppliedMigrations\<close>\<close>
  | WarnNoIndex string  \<comment> \<open>Skipping version: No index.ts or index.js found.\<close>
  | JitiImport string  \<comment> \<open>the call \<open>jiti.import(validIndexFile)\<close>\<close>
  | ErrorLoadFailed string  \<comment> \<open>Failed to load migration file ...\<close>
  | ErrorInvalidMigration string  \<comment> \<open>Invalid migration file in version: Missing default export or id.\<close>
  | LogAlreadyApplied string string  \<comment> \<open>Version version (id) already applied. Skipping.\<close>
  | LogApplying string string  \<comment> \<open>Applying version version (id)...\<close>
  | LogRunningBackup  \<comment> \<open>Running backup command...\<close>
  | ExecBackup string  \<comment> \<open>the call \<open>execAsync(config.backupCommand)\<close>\<close>
  | ErrorBackupFailed  \<comment> \<open>Backup failed: ...\<close>
  | WarnBackupCommandNotSet  \<comment> \<open>Migration requires backup but BACKUP_COMMAND is not set. ...\<close>
  | LogPushingSnapshot string  \<comment> \<open>Pushing schema snapshot for version...\<close>
  | PushSnapshot string  \<comment> \<open>the call \<open>pushSnapshot(snapshotPath)\<close>\<close>
  | ErrorSchemaPushFailed  \<comment> \<open>Schema push failed: ...\<close>
  | WarnNoSnapshot string  \<comment> \<open>No appwrite.config.json found in version. Skipping schema sync.\<close>
  | Poller poll_event  \<comment> \<open>what \<open>waitForAttributes\<close> does\<close>
  | LogExecuting  \<comment> \<open>Executing migration script...\<close>
  | InvokeUp string  \<comment> \<open>the call \<open>migration.up(context)\<close>, the context logging under \<open>[version]\<close>\<close>
  | ErrorScriptFailed  \<comment> \<open>Migration script failed: ...\<close>
  | LogFinalizing  \<comment> \<open>Finalizing...\<close>
  | CreateDocument string string  \<comment> \<open>the call \<open>databases.createDocument\<close> of \<open>recordMigration\<close>\<close>
  | LogApplied string  \<comment> \<open>Version version applied successfully.\<close>
  | LogAllApplied  \<comment> \<open>All migrations applied.\<close>

datatype failure = CliNotConfigured | RemoteError "int option"

datatype outcome = Completed | ProcessExit nat | Rejected failure

type_synonym step = "outcome \<times> event list \<times> remote_store \<times> nat"

type_synonym stage = "remote_store \<Rightarrow> nat \<Rightarrow> step option"

definition andThen :: "step option \<Rightarrow> stage \<Rightarrow> step option" where
  \<comment> \<open>sequencing: what follows runs only when what came first completed\<close>
  "andThen first rest =
     (case first of
        None \<Rightarrow> None
      | Some (out, es, store, n) \<Rightarrow>
          if out = Completed
          then (case rest store n of
                  None \<Rightarrow> None
                | Some (out', es', store', n') \<Rightarrow> Some (out', es @ es', store', n'))
          else Some (out, es, store, n))"

fun runStages :: "stage list \<Rightarrow> stage" where
  "runStages [] store n = Some (Completed, [], store, n)"
| "runStages (f # fs) store n = andThen (f store n) (runStages fs)"

definition listDocuments :: "remote_store \<Rightarrow> int option + string list" where
  \<comment> \<open>\<open>listDocuments(database, collection, [Query.limit(5000)])\<close>, the keys of the answer\<close>
  "listDocuments store =
     (case store of
        Unavailable c \<Rightarrow> Inl c
      | NoCollection \<Rightarrow> Inl (Some 404)
      | Collection docs \<Rightarrow> Inr (map fst (take 5000 docs)))"

definition createDocument :: "remote_store \<Rightarrow> string \<Rightarrow> string \<Rightarrow> int option + remote_store" where
  \<comment> \<open>the document key is the migration id; a key that exists is a conflict, code 409.
      The field \<open>appliedAt\<close> is the time of the call and is left out\<close>
  "createDocument store documentId name' =
     (case store of
        Unavailable c \<Rightarrow> Inl c
      | NoCollection \<Rightarrow> Inl (Some 404)
      | Collection docs \<Rightarrow>
          if documentId \<in> fst ` set docs then Inl (Some 409)
          else Inr (Collection (docs @ [(documentId, name')])))"

definition getAppliedMigrations :: "remote_store \<Rightarrow> int option + string list" where
  "getAppliedMigrations store =
     (case listDocuments store of
        Inr ids \<Rightarrow> Inr ids
      | Inl c \<Rightarrow> if c = Some 404 then Inr [] else Inl c)"

definition migrationsDir :: "environment \<Rightarrow> string" where
  \<comment> \<open>\<open>path.join(process.cwd(), 'appwrite', 'migration')\<close>\<close>
  "migrationsDir env = pathJoin (pathJoin (cwd env) ''appwrite'') ''migration''"

definition snapshotPathOf :: "environment \<Rightarrow> string \<Rightarrow> string" where
  \<comment> \<open>\<open>path.join(versionPath, snapshotFilename)\<close>\<close>
  "snapshotPathOf env version =
     pathJoin (pathJoin (migrationsDir env) version) SNAPSHOT_FILENAME"

definition validIndexFile :: "environment \<Rightarrow> string \<Rightarrow> string option" where
  "validIndexFile env version =
     (let versionPath = pathJoin (migrationsDir env) version;
          indexFile = pathJoin versionPath ''index.ts'';
          indexFileJs = pathJoin versionPath ''index.js''
      in if pathExists env indexFile then Some indexFile
         else if pathExists env indexFileJs then Some indexFileJs
         else None)"

definition backupHook :: "environment \<Rightarrow> config \<Rightarrow> migration \<Rightarrow> stage" where
  "backupHook env cfg m store n =
     (if requiresBackup m = Some True \<and> truthy (backupCommand cfg)
      then (if execAsync env (the (backupCommand cfg))
            then Some (Completed, [LogRunningBackup, ExecBackup (the (backupCommand cfg))], store, n)
            else Some (ProcessExit 1,
                   [LogRunningBackup, ExecBackup (the (backupCommand cfg)), ErrorBackupFailed],
                   store, n))
      else if requiresBackup m = Some True \<and> \<not> truthy (backupCommand cfg)
      then Some (Completed, [WarnBackupCommandNotSet], store, n)
      else Some (Completed, [], store, n))"

definition schemaSync :: "environment \<Rightarrow> string \<Rightarrow> stage" where
  "schemaSync env version store n =
     (let snapshotPath = snapshotPathOf env version in
      if pathExists env snapshotPath
      then (if pushSnapshotResolves env snapshotPath
            then Some (Completed, [LogPushingSnapshot version, PushSnapshot snapshotPath], store, n)
            else Some (ProcessExit 1,
                   [LogPushingSnapshot version, PushSnapshot snapshotPath, ErrorSchemaPushFailed],
                   store, n))
      else Some (Completed, [WarnNoSnapshot version], store, n))"

definition attributePolling :: "environment \<Rightarrow> string \<Rightarrow> stage" where
  "attributePolling env version store n =
     (let snapshotPath = snapshotPathOf env version in
      if pathExists env snapshotPath
      then (case waitForAttributes (listAttributes env) (readSnapshot env) snapshotPath n of
              None \<Rightarrow> None
            | Some (es, m) \<Rightarrow> Some (Completed, map Poller es, store, m))
      else Some (Completed, [], store, n))"

definition dataExecution :: "string \<Rightarrow> migration \<Rightarrow> stage" where
  "dataExecution version m store n =
     (case up m of
        None \<Rightarrow> Some (Completed, [LogExecuting], store, n)
      | Some Resolves \<Rightarrow> Some (Completed, [LogExecuting, InvokeUp version], store, n)
      | Some Throws \<Rightarrow>
          Some (ProcessExit 1, [LogExecuting, InvokeUp version, ErrorScriptFailed], store, n))"

definition finalization :: "string \<Rightarrow> string \<Rightarrow> stage" where
  \<comment> \<open>\<open>recordMigration(databases, config, migration.id, version)\<close>; its error is not caught\<close>
  "finalization documentId version store n =
     (case createDocument store documentId version of
        Inl c \<Rightarrow> Some (Rejected (RemoteError c),
                   [LogFinalizing, CreateDocument documentId version], store, n)
      | Inr store' \<Rightarrow> Some (Completed,
                   [LogFinalizing, CreateDocument documentId version, LogApplied version],
                   store', n))"

definition validMigration :: "migration option \<Rightarrow> (migration \<times> string) option" where
  \<comment> \<open>the negation of \<open>!migration || !migration.id\<close>, with the definition and its id\<close>
  "validMigration d =
     (case d of
        None \<Rightarrow> None
      | Some m \<Rightarrow> if truthy (id_m m) then Some (m, the (id_m m)) else None)"

definition processVersion :: "environment \<Rightarrow> config \<Rightarrow> string set \<Rightarrow> string \<Rightarrow> stage" where
  \<comment> \<open>the body of \<open>for (const version of versionDirs)\<close>\<close>
  "processVersion env cfg appliedSet version store n =
     (case validIndexFile env version of
        None \<Rightarrow> Some (Completed, [WarnNoIndex version], store, n)
      | Some file \<Rightarrow>
          (case jitiImport env file of
             ImportThrows \<Rightarrow> Some (ProcessExit 1, [JitiImport file, ErrorLoadFailed file], store, n)
           | Module d namedExports \<Rightarrow>
               (case validMigration (moduleDefault d namedExports) of
                  None \<Rightarrow>
                    Some (ProcessExit 1, [JitiImport file, ErrorInvalidMigration version], store, n)
                | Some (m, i) \<Rightarrow>
                    if i \<in> appliedSet
                    then Some (Completed, [JitiImport file, LogAlreadyApplied version i], store, n)
                    else andThen (Some (Completed, [JitiImport file, LogApplying version i], store, n))
                           (runStages [backupHook env cfg m, schemaSync env version,
                                       attributePolling env version, dataExecution version m,
                                       finalization i version]))))"

definition discovered :: "environment \<Rightarrow> string list" where
  \<comment> \<open>the constant \<open>versionDirs\<close> of \<open>runMigrations\<close>\<close>
  "discovered env =
     versionDirs (\<lambda>dir. isDirectory env (pathJoin (migrationsDir env) dir))
       (readdirSync env (migrationsDir env))"

definition runMigrations :: "environment \<Rightarrow> config \<Rightarrow> remote_store \<Rightarrow> step option" where
  "runMigrations env cfg store =
     (if \<not> cliConfigured env
      then Some (Rejected CliNotConfigured, [LogStarting, LogConfiguringCli, ConfigureClient], store, 0)
      else if \<not> pathExists env (migrationsDir env)
      then Some (ProcessExit 1,
             [LogStarting, LogConfiguringCli, ConfigureClient, LogCliConfigured,
              ErrorMigrationsDirNotFound (migrationsDir env)], store, 0)
      else
        let dirs = discovered env;
            start = [LogStarting, LogConfiguringCli, ConfigureClient, LogCliConfigured,
                     LogFoundVersions (length dirs), ListDocuments]
        in case getAppliedMigrations store of
             Inl c \<Rightarrow> Some (Rejected (RemoteError c), start, store, 0)
           | Inr appliedMigrationIds \<Rightarrow>
               andThen (Some (Completed, start, store, 0))
                 (runStages (map (processVersion env cfg (set appliedMigrationIds)) dirs
                             @ [\<lambda>store' n. Some (Completed, [LogAllApplied], store', n)])))"

definition upInvocations :: "event list \<Rightarrow> string list" where
  \<comment> \<open>the versions whose \<open>up\<close> action a trace invokes, in order\<close>
  "upInvocations es = concat (map (\<lambda>e. case e of InvokeUp v \<Rightarrow> [v] | _ \<Rightarrow> []) es)"

definition recordsWritten :: "event list \<Rightarrow> (string \<times> string) list" where
  \<comment> \<open>the record writes a trace attempts, in order\<close>
  "recordsWritten es = concat (map (\<lambda>e. case e of CreateDocument i v \<Rightarrow> [(i, v)] | _ \<Rightarrow> []) es)"

definition sideEffects :: "event list \<Rightarrow> event list" where
  \<comment> \<open>the calls of a trace that act on the project: the backup command, the schema push,
      the poller, the \<open>up\<close> action and the record write\<close>
  "sideEffects es =
     filter (\<lambda>e. case e of ExecBackup c \<Rightarrow> True | PushSnapshot p \<Rightarrow> True | Poller q \<Rightarrow> True
                | InvokeUp v \<Rightarrow> True | CreateDocument i v \<Rightarrow> True | _ \<Rightarrow> False) es"

definition quiet :: "event list \<Rightarrow> bool" where
  \<comment> \<open>a trace that invokes no \<open>up\<close> action, writes no record, has not reached the script
      stage and does not fetch the applied identifiers\<close>
  "quiet es = (upInvocations es = [] \<and> recordsWritten es = [] \<and> LogExecuting \<notin> set es
               \<and> ListDocuments \<notin> set es)"

definition loadDefinition :: "environment \<Rightarrow> string \<Rightarrow> (string \<times> migration \<times> string) option" where
  \<comment> \<open>the index file of a version, the definition loaded from it and its id, when the file
      exists, loads, and exports a definition with a non-empty id\<close>
  "loadDefinition env version =
     (case validIndexFile env version of
        None \<Rightarrow> None
      | Some file \<Rightarrow>
          (case jitiImport env file of
             ImportThrows \<Rightarrow> None
           | Module d namedExports \<Rightarrow>
               map_option (\<lambda>(m, i). (file, m, i))
                 (validMigration (moduleDefault d namedExports))))"

definition definitionId :: "environment \<Rightarrow> string \<Rightarrow> string option" where
  "definitionId env version = map_option (\<lambda>(file, m, i). i) (loadDefinition env version)"

definition documents :: "remote_store \<Rightarrow> (string \<times> string) list" where
  "documents store = (case store of Collection docs \<Rightarrow> docs | _ \<Rightarrow> [])"

definition noExports :: migration where
  \<comment> \<open>a module without named exports, read as a definition\<close>
  "noExports = \<lparr>id_m = None, description = None, requiresBackup = None, up = None, down = None\<rparr>"

definition demoModule :: "string option \<Rightarrow> bool option \<Rightarrow> action option \<Rightarrow> import_result" where
  \<comment> \<open>a module whose default export is a definition, and nothing else\<close>
  "demoModule i rb u =
     Module (Definition \<lparr>id_m = i, description = None, requiresBackup = rb, up = u,
                          down = None\<rparr>) noExports"

definition demoEnv :: "(string \<Rightarrow> import_result) \<Rightarrow> bool \<Rightarrow> environment" where
  \<comment> \<open>a project with the version directories \<open>v1\<close> and \<open>v2\<close>, each with an \<open>index.ts\<close> and
      no snapshot\<close>
  "demoEnv modules backupOk =
     \<lparr>cwd = ''/app'', cliConfigured = True,
      pathExists = (\<lambda>p. p \<in> set [''/app/appwrite/migration'',
                                  ''/app/appwrite/migration/v1/index.ts'',
                                  ''/app/appwrite/migration/v2/index.ts'']),
      readdirSync = (\<lambda>p. [''v2'', ''v1'']),
      isDirectory = (\<lambda>p. True),
      jitiImport = modules,
      execAsync = (\<lambda>c. backupOk),
      pushSnapshotResolves = (\<lambda>p. True),
      readSnapshot = (\<lambda>p. None),
      listAttributes = (\<lambda>n d c. Attributes [])\<rparr>"

definition demoConfig :: "string option \<Rightarrow> config" where
  "demoConfig cmd =
     \<lparr>endpoint = ''https://cloud.appwrite.io/v1'', projectId = ''dev'', apiKey = ''secret'',
      migrationCollectionId = ''migrations'', database = ''system'', backupCommand = cmd\<rparr>"

definition recordedIds :: "remote_store \<Rightarrow> string set" where
  "recordedIds store = fst ` set (documents store)"

definition modulesAB :: "string \<Rightarrow> import_result" where
  \<comment> \<open>\<open>v1\<close> exports the definition \<open>A\<close>; \<open>v2\<close> exports \<open>B\<close>, which requires a backup\<close>
  "modulesAB path =
     (if path = ''/app/appwrite/migration/v1/index.ts''
      then demoModule (Some ''A'') None (Some Resolves)
      else demoModule (Some ''B'') (Some True) (Some Resolves))"

definition modulesNoUp :: "string \<Rightarrow> import_result" where
  \<comment> \<open>\<open>v1\<close> exports a definition \<open>A\<close> that has no \<open>up\<close> action\<close>
  "modulesNoUp path =
     (if path = ''/app/appwrite/migration/v1/index.ts''
      then demoModule (Some ''A'') None None
      else demoModule (Some ''B'') None (Some Resolves))"

definition modulesSame :: "string \<Rightarrow> import_result" where
  \<comment> \<open>both versions export a definition with the id \<open>A\<close>\<close>
  "modulesSame path = demoModule (Some ''A'') None (Some Resolves)"

definition modulesInvalid :: "string \<Rightarrow> import_result" where
  \<comment> \<open>\<open>v1\<close> exports nothing; \<open>v2\<close> exports a definition with an empty id\<close>
  "modulesInvalid path =
     (if path = ''/app/appwrite/migration/v1/index.ts''
      then Module NoDefault noExports
      else demoModule (Some []) None (Some Resolves))"

definition modulesNamed :: "string \<Rightarrow> import_result" where
  \<comment> \<open>\<open>v1\<close> has no default export and the named exports \<open>id\<close> and \<open>up\<close>; \<open>v2\<close> exports
      the definition \<open>B\<close>\<close>
  "modulesNamed path =
     (if path = ''/app/appwrite/migration/v1/index.ts''
      then Module NoDefault \<lparr>id_m = Some ''A'', description = None, requiresBackup = None,
                               up = Some Resolves, down = None\<rparr>
      else demoModule (Some ''B'') None (Some Resolves))"

definition modulesThrows :: "string \<Rightarrow> import_result" where
  \<comment> \<open>\<open>v1\<close> exports a definition \<open>A\<close> whose \<open>up\<close> action throws\<close>
  "modulesThrows path =
     (if path = ''/app/appwrite/migration/v1/index.ts''
      then demoModule (Some ''A'') None (Some Throws)
      else demoModule (Some ''B'') None (Some Resolves))"

definition modulesPlain :: "string \<Rightarrow> import_result" where
  \<comment> \<open>\<open>v1\<close> exports the definition \<open>A\<close>, \<open>v2\<close> the definition \<open>B\<close>; neither requires a
      backup\<close>
  "modulesPlain path =
     (if path = ''/app/appwrite/migration/v1/index.ts''
      then demoModule (Some ''A'') None (Some Resolves)
      else demoModule (Some ''B'') None (Some Resolves))"

definition fillerDocs :: "(string \<times> string) list" where
  \<comment> \<open>5000 records of earlier migrations, with the keys \<open>m0000\<close> to \<open>m4999\<close>\<close>
  "fillerDocs =
     map (\<lambda>(a, b, c, d). ([CHR ''m'', a, b, c, d], ''old''))
       (List.product ''01234''
         (List.product ''0123456789'' (List.product ''0123456789'' ''0123456789'')))"

section \<open>Properties of discovery\<close>

lemma mset_sortInsert: "mset (sortInsert c x xs) = add_mset x (mset xs)"
  by (induction xs) auto

lemma mset_arraySort: "mset (arraySort c xs) = mset xs"
  unfolding arraySort_def by (induction xs) (auto simp: mset_sortInsert)

lemma set_sortInsert: "set (sortInsert c x xs) = insert x (set xs)"
  by (induction xs) auto

lemma set_arraySort: "set (arraySort c xs) = set xs"
  by (metis mset_arraySort set_mset_mset)

lemma sortCompare_numbers:
  "versionNumber a = Some m \<Longrightarrow> versionNumber b = Some n \<Longrightarrow>
   sortCompare compareVersions a b = m - n"
  by (simp add: sortCompare_def compareVersions_def)

lemma sorted_sortInsert:
  assumes "\<forall>a \<in> set (x # xs). versionNumber a \<noteq> None"
    and "sorted (map (\<lambda>a. the (versionNumber a)) xs)"
  shows "sorted (map (\<lambda>a. the (versionNumber a)) (sortInsert compareVersions x xs))"
  using assms
proof (induction xs)
  case Nil
  then show ?case by simp
next
  case (Cons y ys)
  obtain m n where mn: "versionNumber x = Some m" "versionNumber y = Some n"
    using Cons.prems(1) by auto
  show ?case
  proof (cases "m \<le> n")
    case True
    then show ?thesis using Cons.prems mn
      by (auto simp: sortCompare_numbers)
  next
    case False
    have "sorted (map (\<lambda>a. the (versionNumber a)) (sortInsert compareVersions x ys))"
      using Cons by auto
    then show ?thesis using False Cons.prems mn
      by (auto simp: sortCompare_numbers set_sortInsert)
  qed
qed

lemma sorted_arraySort:
  assumes "\<forall>a \<in> set xs. versionNumber a \<noteq> None"
  shows "sorted (map (\<lambda>a. the (versionNumber a)) (arraySort compareVersions xs))"
  using assms
proof (induction xs)
  case Nil
  then show ?case by (simp add: arraySort_def)
next
  case (Cons x xs)
  have "sorted (map (\<lambda>a. the (versionNumber a)) (arraySort compareVersions xs))"
    using Cons by simp
  moreover have "\<forall>a \<in> set (x # arraySort compareVersions xs). versionNumber a \<noteq> None"
    using Cons.prems by (simp add: set_arraySort)
  ultimately have "sorted (map (\<lambda>a. the (versionNumber a))
      (sortInsert compareVersions x (arraySort compareVersions xs)))"
    by (rule sorted_sortInsert[rotated])
  then show ?case by (simp add: arraySort_def)
qed

text \<open>
  Claim C3. Discovery sorts the version directories by the integer parsed from the name
  after the leading \<open>v\<close>, ascending numerically and not lexically: whatever the directory
  listing holds and in whatever order, when the version directories it keeps have the
  sequence numbers 2, 10 and 1, they are processed in the order 1, 2, 10.
\<close>

theorem discovery_numeric_order:
  assumes "mset (map versionNumber (filter (isVersionDir isDir) entries))
             = {#Some 2, Some 10, Some 1#}"
  shows "map versionNumber (versionDirs isDir entries) = [Some 1, Some 2, Some 10]"
proof -
  let ?fs = "filter (isVersionDir isDir) entries"
  let ?rs = "versionDirs isDir entries"
  have ms: "mset ?rs = mset ?fs"
    by (simp add: versionDirs_def mset_arraySort)
  have keys: "mset (map versionNumber ?rs) = {#Some 2, Some 10, Some 1#}"
    using assms ms by (metis mset_map)
  have "\<forall>a \<in> set ?fs. versionNumber a \<in># mset (map versionNumber ?fs)"
    by simp
  then have some: "\<forall>a \<in> set ?fs. versionNumber a \<noteq> None"
    unfolding assms by auto
  have srt: "sorted (map (\<lambda>a. the (versionNumber a)) ?rs)"
    unfolding versionDirs_def using some by (rule sorted_arraySort)
  have "mset (map (\<lambda>a. the (versionNumber a)) ?rs) = image_mset the (mset (map versionNumber ?rs))"
    by (simp add: multiset.map_comp comp_def)
  also have "\<dots> = mset [2, 10, 1 :: int]"
    unfolding keys by simp
  finally have "sort [2, 10, 1 :: int] = map (\<lambda>a. the (versionNumber a)) ?rs"
    using srt by (intro properties_for_sort) auto
  then have nums: "map (\<lambda>a. the (versionNumber a)) ?rs = [1, 2, 10]"
    by simp
  have "\<forall>a \<in> set ?rs. versionNumber a \<noteq> None"
    using some by (simp add: versionDirs_def set_arraySort)
  then have "map versionNumber ?rs = map Some (map (\<lambda>a. the (versionNumber a)) ?rs)"
    by (induction ?rs) auto
  then show ?thesis unfolding nums by simp
qed

lemma versionNumber_examples:
  "map versionNumber [''v2'', ''v10'', ''v1''] = [Some 2, Some 10, Some 1]"
  by code_simp

theorem discovery_numeric_order_witness:
  "mset (map versionNumber (filter (isVersionDir (\<lambda>d. d \<noteq> ''v3.txt''))
       [''v2'', ''README.md'', ''v10'', ''v3.txt'', ''v1'']))
     = {#Some 2, Some 10, Some 1#}
   \<and> map versionNumber (versionDirs (\<lambda>d. d \<noteq> ''v3.txt'')
       [''v2'', ''README.md'', ''v10'', ''v3.txt'', ''v1'']) = [Some 1, Some 2, Some 10]
   \<and> versionDirs (\<lambda>d. d \<noteq> ''v3.txt'')
       [''v2'', ''README.md'', ''v10'', ''v3.txt'', ''v1''] = [''v1'', ''v2'', ''v10'']"
proof -
  have f: "filter (isVersionDir (\<lambda>d. d \<noteq> ''v3.txt''))
       [''v2'', ''README.md'', ''v10'', ''v3.txt'', ''v1''] = [''v2'', ''v10'', ''v1'']"
    by (simp add: isVersionDir_def startsWith_def)
  have h: "mset (map versionNumber (filter (isVersionDir (\<lambda>d. d \<noteq> ''v3.txt''))
       [''v2'', ''README.md'', ''v10'', ''v3.txt'', ''v1'']))
     = {#Some 2, Some 10, Some 1#}"
    unfolding f versionNumber_examples by simp
  have r: "versionDirs (\<lambda>d. d \<noteq> ''v3.txt'')
       [''v2'', ''README.md'', ''v10'', ''v3.txt'', ''v1''] = [''v1'', ''v2'', ''v10'']"
    unfolding versionDirs_def f by code_simp
  from h discovery_numeric_order[OF h] r show ?thesis by simp
qed

lemma takeWhile_empty_iff: "takeWhile P xs = [] \<longleftrightarrow> xs = [] \<or> \<not> P (hd xs)"
  by (cases xs) auto

lemma parseInt_None_iff: "parseInt s = None \<longleftrightarrow> \<not> numeralStart s"
proof -
  define t where "t = trimStart s"
  define u where "u = (if t \<noteq> [] \<and> (hd t = CHR ''+'' \<or> hd t = CHR ''-'') then tl t else t)"
  show ?thesis
  proof (cases "take 2 u = ''0x'' \<or> take 2 u = ''0X''")
    case True
    have "takeWhile (isRadixDigit 16) (drop 2 u) = []
          \<longleftrightarrow> \<not> (2 < length u \<and> isRadixDigit 16 (u ! 2))"
      by (cases "2 < length u") (auto simp: takeWhile_empty_iff hd_drop_conv_nth)
    then show ?thesis
      using True unfolding parseInt_def numeralStart_def Let_def t_def[symmetric] u_def[symmetric]
      by simp
  next
    case False
    then show ?thesis
      unfolding parseInt_def numeralStart_def Let_def t_def[symmetric] u_def[symmetric]
      by (simp add: takeWhile_empty_iff)
  qed
qed

text \<open>
  Claim C10, as stated, fails: the name \<open>v1abc\<close> is not of the form \<open>v<N>\<close>, since
  \<open>1abc\<close> is not a decimal integer, and yet \<open>parseInt\<close> reads the number 1 from it, not
  \<open>NaN\<close>.
\<close>

theorem discovery_non_numeric_counterexample:
  "\<not> (\<not> isDecimalInteger (substring 1 ''v1abc'') \<longrightarrow> versionNumber ''v1abc'' = None)"
proof -
  have "versionNumber ''v1abc'' = Some 1" by code_simp
  moreover have "\<not> isDecimalInteger (substring 1 ''v1abc'')"
    by (simp add: isDecimalInteger_def substring_def)
  ultimately show ?thesis by simp
qed

text \<open>
  Claim C10, amended. Discovery keeps every directory whose name starts with \<open>v\<close>. When
  the name after the \<open>v\<close> has no numeral at its start, that is, when after leading white
  space and at most one sign there is neither a decimal digit nor \<open>0x\<close> with a hexadecimal
  digit after it, the parsed sequence number is \<open>NaN\<close>, the comparator returns \<open>NaN\<close> for
  every comparison that involves the directory, and the sort reads each of them as equal:
  the directory is processed, at a position that no number decides. Every other name
  parses as a number.
\<close>

theorem discovery_non_numeric_name:
  assumes "dir \<in> set entries" and "startsWith dir ''v''" and "isDir dir"
  shows "dir \<in> set (versionDirs isDir entries)
       \<and> (\<not> numeralStart (substring 1 dir) \<longrightarrow>
            versionNumber dir = None
          \<and> (\<forall>b. compareVersions dir b = None \<and> compareVersions b dir = None)
          \<and> (\<forall>b. sortCompare compareVersions dir b = 0
                \<and> sortCompare compareVersions b dir = 0))
       \<and> (numeralStart (substring 1 dir) \<longrightarrow> versionNumber dir \<noteq> None)"
proof -
  have 1: "dir \<in> set (versionDirs isDir entries)"
    using assms by (simp add: versionDirs_def set_arraySort isVersionDir_def)
  have 2: "versionNumber dir = None \<longleftrightarrow> \<not> numeralStart (substring 1 dir)"
    unfolding versionNumber_def by (rule parseInt_None_iff)
  have 3: "compareVersions dir b = None \<and> compareVersions b dir = None"
    if "versionNumber dir = None" for b
    using that by (simp add: compareVersions_def split: option.splits)
  have 4: "sortCompare compareVersions dir b = 0 \<and> sortCompare compareVersions b dir = 0"
    if "versionNumber dir = None" for b
    using 3[OF that, of b] by (simp add: sortCompare_def)
  from 1 2 3 4 show ?thesis by blast
qed

lemma numeralStart_examples:
  "\<not> numeralStart (substring 1 ''vnext'')"
  "\<not> numeralStart (substring 1 ''v'')"
  "\<not> numeralStart (substring 1 ''v-'')"
  "\<not> numeralStart (substring 1 ''v+x'')"
  "\<not> numeralStart (substring 1 ''v '')"
  "\<not> numeralStart (substring 1 ''v0x'')"
  "\<not> numeralStart (substring 1 ''v--5'')"
  "numeralStart (substring 1 ''v1abc'')"
  "numeralStart (substring 1 ''v0x1F'')"
  "numeralStart (substring 1 [CHR ''v'', CHR 0xC2, CHR 0xA0, CHR ''5''])"
  by code_simp+

lemma versionNumber_prefix_examples:
  "versionNumber ''v1abc'' = Some 1"
  "versionNumber ''v0x1F'' = Some 31"
  "versionNumber [CHR ''v'', CHR 0xC2, CHR 0xA0, CHR ''5''] = Some 5"
  "versionNumber ''v -7'' = Some (- 7)"
  by code_simp+

theorem discovery_non_numeric_name_witness:
  "''vnext'' \<in> set [''v2'', ''vnext'', ''v--5'', ''v0x'', ''v1abc''] \<and> startsWith ''vnext'' ''v''
   \<and> \<not> numeralStart (substring 1 ''vnext'')
   \<and> ''vnext'' \<in> set (versionDirs (\<lambda>d. True) [''v2'', ''vnext'', ''v--5'', ''v0x'', ''v1abc''])
   \<and> versionNumber ''vnext'' = None
   \<and> (\<forall>b. compareVersions ''vnext'' b = None \<and> compareVersions b ''vnext'' = None)
   \<and> (\<forall>b. sortCompare compareVersions ''vnext'' b = 0
          \<and> sortCompare compareVersions b ''vnext'' = 0)
   \<and> \<not> numeralStart (substring 1 ''v--5'') \<and> versionNumber ''v--5'' = None
   \<and> ''v--5'' \<in> set (versionDirs (\<lambda>d. True) [''v2'', ''vnext'', ''v--5'', ''v0x'', ''v1abc''])
   \<and> \<not> numeralStart (substring 1 ''v0x'') \<and> versionNumber ''v0x'' = None
   \<and> numeralStart (substring 1 ''v1abc'') \<and> versionNumber ''v1abc'' \<noteq> None
   \<and> ''v1abc'' \<in> set (versionDirs (\<lambda>d. True) [''v2'', ''vnext'', ''v--5'', ''v0x'', ''v1abc''])"
proof -
  let ?es = "[''v2'', ''vnext'', ''v--5'', ''v0x'', ''v1abc'']"
  have m: "''vnext'' \<in> set ?es" "''v--5'' \<in> set ?es" "''v0x'' \<in> set ?es" "''v1abc'' \<in> set ?es"
    by simp_all
  have s: "startsWith ''vnext'' ''v''" "startsWith ''v--5'' ''v''" "startsWith ''v0x'' ''v''"
    "startsWith ''v1abc'' ''v''"
    by (simp_all add: startsWith_def)
  have d: "(\<lambda>d. True) x" for x :: string by simp
  from m(1) s(1) numeralStart_examples(1,6,7,8)
    discovery_non_numeric_name[of "''vnext''" ?es "\<lambda>d. True", OF m(1) s(1) d]
    discovery_non_numeric_name[of "''v--5''" ?es "\<lambda>d. True", OF m(2) s(2) d]
    discovery_non_numeric_name[of "''v0x''" ?es "\<lambda>d. True", OF m(3) s(3) d]
    discovery_non_numeric_name[of "''v1abc''" ?es "\<lambda>d. True", OF m(4) s(4) d]
  show ?thesis by blast
qed

section \<open>Properties of the poller\<close>

lemma sleeps_append: "sleeps (xs @ ys) = sleeps xs @ sleeps ys"
  by (simp add: sleeps_def)

lemma pollLoop_available:
  assumes "allAvailable (la n d c)"
  shows "pollLoop la d c n = Some ([ListAttributes d c], Suc n)"
  using assms
  by (subst pollLoop.simps) (simp add: allAvailable_def split: response.splits)

lemma pollLoop_server_error:
  assumes "la n d c = Failure e" and "code e = Some 500"
  shows "pollLoop la d c n = Some ([ListAttributes d c, WarnServerError c d], Suc n)"
  using assms by (subst pollLoop.simps) simp

lemma pollLoop_other_error:
  assumes "la n d c = Failure e" and "code e \<noteq> Some 500"
  shows "pollLoop la d c n =
         Option.bind (pollLoop la d c (Suc n))
           (emit [ListAttributes d c, WarnRetrying c d (message e), Sleep 2000])"
  using assms by (subst pollLoop.simps) simp

lemma pollLoop_pending:
  assumes "la n d c = Attributes as" and "pendingAttributes as \<noteq> []"
  shows "pollLoop la d c n =
         Option.bind (pollLoop la d c (Suc n))
           (emit [ListAttributes d c, LogWaiting (length (pendingAttributes as)), Sleep 2000])"
  using assms by (subst pollLoop.simps) simp

lemma pollTable_no_database:
  assumes "\<not> truthy (databaseId t)"
  shows "pollTable la t n = Some ([WarnNoDatabaseId (name t) (tableId t)], n)"
  using assms by (simp add: pollTable_def)

text \<open>
  Claim C4. In the poller, for every table: a table without a parent database identifier
  is skipped with a warning and no query is issued for it; a query that fails with the
  error code 500 ends the polling of that one table, with a warning, no retry and no
  failure of the poller, which goes on with the next table; a query that fails with any
  other error is tried again after the same sleep of 2000 milliseconds.
\<close>

theorem poller_error_handling:
  "(\<not> truthy (databaseId t) \<longrightarrow>
      pollTable la t n = Some ([WarnNoDatabaseId (name t) (tableId t)], n)
      \<and> queriesIssued [WarnNoDatabaseId (name t) (tableId t)] = []
      \<and> pollTables la (t # ts) n =
          Option.bind (pollTables la ts n) (emit [WarnNoDatabaseId (name t) (tableId t)]))
   \<and> (la n d c = Failure e \<and> code e = Some 500 \<longrightarrow>
      pollLoop la d c n = Some ([ListAttributes d c, WarnServerError c d], Suc n))
   \<and> (truthy (databaseId t) \<and> la n (the (databaseId t)) (tableId t) = Failure e
        \<and> code e = Some 500 \<longrightarrow>
      pollTables la (t # ts) n =
        Option.bind (pollTables la ts (Suc n))
          (emit [LogChecking (name t) (tableId t),
                 ListAttributes (the (databaseId t)) (tableId t),
                 WarnServerError (tableId t) (the (databaseId t))]))
   \<and> (la n d c = Failure e \<and> code e \<noteq> Some 500 \<longrightarrow>
      pollLoop la d c n =
        Option.bind (pollLoop la d c (Suc n))
          (emit [ListAttributes d c, WarnRetrying c d (message e), Sleep 2000]))"
proof (intro conjI impI)
  assume "\<not> truthy (databaseId t)"
  then show "pollTable la t n = Some ([WarnNoDatabaseId (name t) (tableId t)], n)"
    by (rule pollTable_no_database)
next
  show "queriesIssued [WarnNoDatabaseId (name t) (tableId t)] = []"
    by (simp add: queriesIssued_def)
next
  assume "\<not> truthy (databaseId t)"
  then show "pollTables la (t # ts) n =
          Option.bind (pollTables la ts n) (emit [WarnNoDatabaseId (name t) (tableId t)])"
    by (simp add: pollTable_no_database)
next
  assume "la n d c = Failure e \<and> code e = Some 500"
  then show "pollLoop la d c n = Some ([ListAttributes d c, WarnServerError c d], Suc n)"
    by (simp add: pollLoop_server_error)
next
  assume a: "truthy (databaseId t) \<and> la n (the (databaseId t)) (tableId t) = Failure e
        \<and> code e = Some 500"
  then have "pollTable la t n = Some ([LogChecking (name t) (tableId t),
                 ListAttributes (the (databaseId t)) (tableId t),
                 WarnServerError (tableId t) (the (databaseId t))], Suc n)"
    by (simp add: pollTable_def pollLoop_server_error emit_def)
  then show "pollTables la (t # ts) n =
        Option.bind (pollTables la ts (Suc n))
          (emit [LogChecking (name t) (tableId t),
                 ListAttributes (the (databaseId t)) (tableId t),
                 WarnServerError (tableId t) (the (databaseId t))])"
    by simp
next
  assume "la n d c = Failure e \<and> code e \<noteq> Some 500"
  then show "pollLoop la d c n =
        Option.bind (pollLoop la d c (Suc n))
          (emit [ListAttributes d c, WarnRetrying c d (message e), Sleep 2000])"
    by (simp add: pollLoop_other_error)
qed


lemma example_facts:
  "\<not> truthy (databaseId (exampleTables ! 0))"
  "truthy (databaseId (exampleTables ! 1))"
  "exampleRemote 0 (the (databaseId (exampleTables ! 1))) (tableId (exampleTables ! 1))
     = Failure \<lparr>code = Some 500, message = ''Server Error''\<rparr>"
  "exampleRemote 1 ''main'' ''flaky'' = Failure \<lparr>code = Some 503, message = ''Service Unavailable''\<rparr>"
  by (simp_all add: exampleTables_def exampleRemote_def truthy_def)

theorem poller_error_handling_witness:
  "\<not> truthy (databaseId (exampleTables ! 0))
   \<and> pollTable exampleRemote (exampleTables ! 0) 0 = Some ([WarnNoDatabaseId ''Orphan'' ''orphan''], 0)
   \<and> exampleRemote 0 ''main'' ''broken'' = Failure \<lparr>code = Some 500, message = ''Server Error''\<rparr>
   \<and> pollLoop exampleRemote ''main'' ''broken'' 0
       = Some ([ListAttributes ''main'' ''broken'', WarnServerError ''broken'' ''main''], 1)
   \<and> truthy (databaseId (exampleTables ! 1))
   \<and> pollTables exampleRemote [exampleTables ! 1, exampleTables ! 2] 0
       = Option.bind (pollTables exampleRemote [exampleTables ! 2] 1)
           (emit [LogChecking ''Broken'' ''broken'', ListAttributes ''main'' ''broken'',
                  WarnServerError ''broken'' ''main''])
   \<and> exampleRemote 1 ''main'' ''flaky''
       = Failure \<lparr>code = Some 503, message = ''Service Unavailable''\<rparr>
   \<and> pollLoop exampleRemote ''main'' ''flaky'' 1
       = Option.bind (pollLoop exampleRemote ''main'' ''flaky'' 2)
           (emit [ListAttributes ''main'' ''flaky'',
                  WarnRetrying ''flaky'' ''main'' ''Service Unavailable'', Sleep 2000])"
proof -
  let ?e500 = "\<lparr>code = Some 500, message = ''Server Error''\<rparr>"
  let ?e503 = "\<lparr>code = Some 503, message = ''Service Unavailable''\<rparr>"
  have b: "exampleRemote 0 ''main'' ''broken'' = Failure ?e500"
    by (simp add: exampleRemote_def)
  have t1: "name (exampleTables ! 1) = ''Broken''" "tableId (exampleTables ! 1) = ''broken''"
    "the (databaseId (exampleTables ! 1)) = ''main''"
    "name (exampleTables ! 0) = ''Orphan''" "tableId (exampleTables ! 0) = ''orphan''"
    by (simp_all add: exampleTables_def)
  have two: "Suc (Suc 0) = 2" by simp
  show ?thesis
    using poller_error_handling[of "exampleTables ! 0" exampleRemote 0 "[]" "''main''" "''broken''" ?e500]
      poller_error_handling[of "exampleTables ! 1" exampleRemote 0 "[exampleTables ! 2]" "''main''" "''flaky''" ?e500]
      poller_error_handling[of "exampleTables ! 1" exampleRemote 1 "[]" "''main''" "''flaky''" ?e503]
      example_facts b
    unfolding t1 by (simp add: two)
qed

lemma pollTables_available:
  "availableOnFirstQuery la ts n \<Longrightarrow>
   \<exists>es. pollTables la ts n = Some (es, n + polledTables ts) \<and> sleeps es = []"
proof (induction ts arbitrary: n)
  case Nil
  then show ?case by (simp add: polledTables_def sleeps_def)
next
  case (Cons t ts)
  show ?case
  proof (cases "truthy (databaseId t)")
    case False
    with Cons.prems have "availableOnFirstQuery la ts n" by simp
    from Cons.IH[OF this] obtain es where
      "pollTables la ts n = Some (es, n + polledTables ts)" "sleeps es = []" by blast
    with False show ?thesis
      by (simp add: pollTable_no_database emit_def polledTables_def sleeps_def)
  next
    case True
    with Cons.prems have a: "allAvailable (la n (the (databaseId t)) (tableId t))"
      and b: "availableOnFirstQuery la ts (Suc n)" by simp_all
    from Cons.IH[OF b] obtain es where
      "pollTables la ts (Suc n) = Some (es, Suc n + polledTables ts)" "sleeps es = []" by blast
    with True a show ?thesis
      by (simp add: pollTable_def pollLoop_available emit_def polledTables_def sleeps_def)
  qed
qed

lemma pollTables_append:
  "pollTables la (xs @ ys) n =
     (case pollTables la xs n of None \<Rightarrow> None
      | Some (es, m) \<Rightarrow> Option.bind (pollTables la ys m) (emit es))"
proof (induction xs arbitrary: n)
  case Nil
  show ?case by (cases "pollTables la ys n") (auto simp: emit_def)
next
  case (Cons x xs)
  show ?case
  proof (cases "pollTable la x n")
    case None
    then show ?thesis by simp
  next
    case (Some r)
    obtain es m where r: "r = (es, m)" by (cases r)
    show ?thesis
      using Some r Cons.IH[of m]
      by (cases "pollTables la xs m"; cases "pollTables la ys (snd (the (pollTables la xs m)))")
         (auto simp: emit_def split: option.splits prod.splits)
  qed
qed


lemma pollTables_one_pending:
  assumes pre: "availableOnFirstQuery la pre n"
    and t: "truthy (databaseId t)"
    and first: "la (n + polledTables pre) (the (databaseId t)) (tableId t) = Attributes as"
    and pend: "pendingAttributes as \<noteq> []"
    and second: "allAvailable (la (Suc (n + polledTables pre)) (the (databaseId t)) (tableId t))"
    and post: "availableOnFirstQuery la post (Suc (Suc (n + polledTables pre)))"
  shows "\<exists>es m. pollTables la (pre @ t # post) n = Some (es, m) \<and> sleeps es = [2000]"
proof -
  let ?k = "n + polledTables pre"
  let ?d = "the (databaseId t)" and ?c = "tableId t"
  from pollTables_available[OF pre] obtain es1 where
    1: "pollTables la pre n = Some (es1, ?k)" "sleeps es1 = []" by blast
  have loop: "pollLoop la ?d ?c ?k =
      Some ([ListAttributes ?d ?c, LogWaiting (length (pendingAttributes as)), Sleep 2000,
             ListAttributes ?d ?c], Suc (Suc ?k))"
    using pollLoop_pending[of la ?k ?d ?c as, OF first pend] pollLoop_available[of la "Suc ?k" ?d ?c, OF second]
    by (simp add: emit_def)
  have 2: "pollTable la t ?k =
      Some ([LogChecking (name t) ?c, ListAttributes ?d ?c,
             LogWaiting (length (pendingAttributes as)), Sleep 2000,
             ListAttributes ?d ?c], Suc (Suc ?k))"
    using t by (simp add: pollTable_def loop emit_def)
  from pollTables_available[OF post] obtain es3 where
    3: "pollTables la post (Suc (Suc ?k)) = Some (es3, Suc (Suc ?k) + polledTables post)"
       "sleeps es3 = []" by blast
  have "pollTables la (pre @ t # post) n =
      Some (es1 @ [LogChecking (name t) ?c, ListAttributes ?d ?c,
             LogWaiting (length (pendingAttributes as)), Sleep 2000,
             ListAttributes ?d ?c] @ es3, Suc (Suc ?k) + polledTables post)"
    by (simp add: pollTables_append 1 2 3 emit_def)
  moreover have "sleeps (es1 @ [LogChecking (name t) ?c, ListAttributes ?d ?c,
             LogWaiting (length (pendingAttributes as)), Sleep 2000,
             ListAttributes ?d ?c] @ es3) = [2000]"
    using 1(2) 3(2) by (simp add: sleeps_append) (simp add: sleeps_def)
  ultimately show ?thesis by blast
qed

lemma waitForAttributes_sleeps:
  assumes "rd path = Some sch"
    and "pollTables la (snapshotTables sch) n = Some (es, m)"
  shows "\<exists>es' m'. waitForAttributes la rd path n = Some (es', m') \<and> sleeps es' = sleeps es"
  using assms by (simp add: waitForAttributes_def emit_def sleeps_def)

text \<open>
  Claim C5. When every polled table of the snapshot reports all its attributes available
  on its first query, the poller returns without sleeping. When one table reports exactly
  one pending attribute on its first query and none on its second, all other tables being
  available at once, the poller returns after exactly one sleep of 2000 milliseconds.
\<close>

theorem poller_sleep_count:
  "(rd path = Some sch \<and> availableOnFirstQuery la (snapshotTables sch) n \<longrightarrow>
      (\<exists>es m. waitForAttributes la rd path n = Some (es, m) \<and> sleeps es = []))
   \<and> (rd path = Some sch \<and> snapshotTables sch = pre @ t # post
       \<and> availableOnFirstQuery la pre n \<and> truthy (databaseId t)
       \<and> la (n + polledTables pre) (the (databaseId t)) (tableId t) = Attributes as
       \<and> length (pendingAttributes as) = 1
       \<and> allAvailable (la (Suc (n + polledTables pre)) (the (databaseId t)) (tableId t))
       \<and> availableOnFirstQuery la post (Suc (Suc (n + polledTables pre))) \<longrightarrow>
      (\<exists>es m. waitForAttributes la rd path n = Some (es, m) \<and> sleeps es = [2000]))"
proof (intro conjI impI)
  assume a: "rd path = Some sch \<and> availableOnFirstQuery la (snapshotTables sch) n"
  then obtain es where "pollTables la (snapshotTables sch) n
      = Some (es, n + polledTables (snapshotTables sch))" "sleeps es = []"
    using pollTables_available by blast
  with a waitForAttributes_sleeps[of rd path sch la n es]
  show "\<exists>es m. waitForAttributes la rd path n = Some (es, m) \<and> sleeps es = []"
    by auto
next
  assume a: "rd path = Some sch \<and> snapshotTables sch = pre @ t # post
       \<and> availableOnFirstQuery la pre n \<and> truthy (databaseId t)
       \<and> la (n + polledTables pre) (the (databaseId t)) (tableId t) = Attributes as
       \<and> length (pendingAttributes as) = 1
       \<and> allAvailable (la (Suc (n + polledTables pre)) (the (databaseId t)) (tableId t))
       \<and> availableOnFirstQuery la post (Suc (Suc (n + polledTables pre)))"
  then have "pendingAttributes as \<noteq> []" by auto
  with a obtain es m where "pollTables la (pre @ t # post) n = Some (es, m)" "sleeps es = [2000]"
    using pollTables_one_pending[of la pre n t as post] by blast
  with a waitForAttributes_sleeps[of rd path sch la n es m]
  show "\<exists>es m. waitForAttributes la rd path n = Some (es, m) \<and> sleeps es = [2000]"
    by auto
qed

theorem poller_sleep_count_witness:
  "availableOnFirstQuery settlingRemote
      (snapshotTables (the (settlingSnapshot ''v2/appwrite.config.json''))) 1
   \<and> (\<exists>es m. waitForAttributes settlingRemote settlingSnapshot ''v2/appwrite.config.json'' 1
          = Some (es, m) \<and> sleeps es = [])
   \<and> length (pendingAttributes [\<lparr>key = ''title'', status = ''available''\<rparr>,
                                  \<lparr>key = ''body'', status = ''processing''\<rparr>]) = 1
   \<and> (\<exists>es m. waitForAttributes settlingRemote settlingSnapshot ''v2/appwrite.config.json'' 0
          = Some (es, m) \<and> sleeps es = [2000])"
proof -
  let ?p = "''v2/appwrite.config.json''"
  let ?posts = "\<lparr>tableId = ''posts'', name = ''Posts'', databaseId = Some ''main''\<rparr>"
  let ?tags = "\<lparr>tableId = ''tags'', name = ''Tags'', databaseId = Some ''main''\<rparr>"
  let ?sch = "\<lparr>tables = Some [?posts, ?tags]\<rparr>"
  let ?as = "[\<lparr>key = ''title'', status = ''available''\<rparr>,
              \<lparr>key = ''body'', status = ''processing''\<rparr>]"
  have rs: "settlingSnapshot ?p = Some ?sch" by (simp add: settlingSnapshot_def)
  have ts: "snapshotTables ?sch = [] @ ?posts # [?tags]" by (simp add: snapshotTables_def)
  have h1: "availableOnFirstQuery settlingRemote (snapshotTables ?sch) 1"
    by (simp add: snapshotTables_def truthy_def allAvailable_def settlingRemote_def
        pendingAttributes_def)
  have h2: "availableOnFirstQuery settlingRemote [] 0" by simp
  have h3: "truthy (databaseId ?posts)" by (simp add: truthy_def)
  have h4: "settlingRemote (0 + polledTables []) (the (databaseId ?posts)) (tableId ?posts)
            = Attributes ?as"
    by (simp add: settlingRemote_def polledTables_def)
  have h5: "length (pendingAttributes ?as) = 1" by (simp add: pendingAttributes_def)
  have h6: "allAvailable (settlingRemote (Suc (0 + polledTables []))
              (the (databaseId ?posts)) (tableId ?posts))"
    by (simp add: settlingRemote_def polledTables_def allAvailable_def pendingAttributes_def)
  have h7: "availableOnFirstQuery settlingRemote [?tags] (Suc (Suc (0 + polledTables [])))"
    by (simp add: truthy_def allAvailable_def settlingRemote_def pendingAttributes_def)
  have a: "\<exists>es m. waitForAttributes settlingRemote settlingSnapshot ?p 1 = Some (es, m)
            \<and> sleeps es = []"
    using poller_sleep_count[of settlingSnapshot ?p ?sch settlingRemote 1] rs h1 by blast
  have b: "\<exists>es m. waitForAttributes settlingRemote settlingSnapshot ?p 0 = Some (es, m)
            \<and> sleeps es = [2000]"
    using poller_sleep_count[of settlingSnapshot ?p ?sch settlingRemote 0 "[]" ?posts "[?tags]" ?as]
      rs ts h2 h3 h4 h5 h6 h7 by blast
  from h1 rs a h5 b show ?thesis by simp
qed

section \<open>Properties of the snapshot push\<close>

lemma pushResources_frame:
  assumes "\<forall>c d f. snd (ex c d f) p = f p"
  shows "snd (pushResources ex rootDir rs files) p = files p"
proof (induction rs arbitrary: files)
  case Nil
  show ?case by simp
next
  case (Cons r rs)
  obtain ok files' where e: "ex (pushCommand r) rootDir files = (ok, files')"
    by (cases "ex (pushCommand r) rootDir files")
  have "files' p = files p" using assms[rule_format, of "pushCommand r" rootDir files] e by simp
  then show ?case using e Cons.IH[of files'] by (cases ok) simp_all
qed

lemma pushSnapshot_unreadable:
  assumes "files snapshotPath = Some text"
    and "rewrite text pid = None"
    and "snapshotPath \<noteq> pathJoin rootDir SNAPSHOT_FILENAME @ ''.bak''"
    and "existsSync files (pathJoin rootDir SNAPSHOT_FILENAME)"
  shows "pushSnapshot rewrite ex rootDir snapshotPath pid files =
     (Threw SnapshotUnreadable,
      files(pathJoin rootDir SNAPSHOT_FILENAME @ ''.bak'' := files (pathJoin rootDir SNAPSHOT_FILENAME)))"
  using assms
  by (simp add: pushSnapshot_def Let_def existsSync_def copyFileSync_def)

text \<open>
  With a schema tool that does not touch the backup file, a push of a readable snapshot
  leaves the working snapshot as it was (absent if it was absent) and removes the backup.
\<close>

lemma pushSnapshot_restores:
  assumes snap: "files snapshotPath = Some text"
    and rw: "rewrite text pid = Some snapshotData"
    and ne: "snapshotPath \<noteq> pathJoin rootDir SNAPSHOT_FILENAME @ ''.bak''"
    and frame: "\<forall>c d f. snd (ex c d f) (pathJoin rootDir SNAPSHOT_FILENAME @ ''.bak'')
                  = f (pathJoin rootDir SNAPSHOT_FILENAME @ ''.bak'')"
  shows "snd (pushSnapshot rewrite ex rootDir snapshotPath pid files)
           (pathJoin rootDir SNAPSHOT_FILENAME) = files (pathJoin rootDir SNAPSHOT_FILENAME)
       \<and> (existsSync files (pathJoin rootDir SNAPSHOT_FILENAME) \<longrightarrow>
          snd (pushSnapshot rewrite ex rootDir snapshotPath pid files)
            (pathJoin rootDir SNAPSHOT_FILENAME @ ''.bak'') = None)"
proof (cases "files (pathJoin rootDir SNAPSHOT_FILENAME)")
  case None
  then show ?thesis
    using snap rw
    by (simp add: pushSnapshot_def Let_def existsSync_def unlinkSync_def)
next
  case (Some orig)
  define root where "root = pathJoin rootDir SNAPSHOT_FILENAME"
  define bak where "bak = root @ ''.bak''"
  have nb: "bak \<noteq> root" by (simp add: bak_def)
  have orig: "files root = Some orig" using Some by (simp add: root_def)
  have fr: "snd (pushResources ex rootDir RESOURCES f) bak = f bak" for f
    using pushResources_frame[OF frame, of rootDir RESOURCES f]
    by (simp add: bak_def root_def)
  have sp: "snapshotPath \<noteq> bak" using ne by (simp add: bak_def root_def)
  show ?thesis
    unfolding root_def[symmetric] bak_def[symmetric]
    unfolding pushSnapshot_def Let_def root_def[symmetric] bak_def[symmetric]
    using snap rw sp nb orig
    by (simp add: existsSync_def copyFileSync_def writeFileSync_def unlinkSync_def fr)
qed

text \<open>
  Claim C2 holds for a snapshot that can be read, as the lemma above shows for a schema
  tool that leaves the backup file alone: the working snapshot is as before and the
  backup is gone, whether the push succeeds or fails. It fails for a snapshot that cannot
  be parsed: the backup is taken before the snapshot is read, outside the \<open>try\<close>, so the
  call throws with the working snapshot untouched and the backup file left behind.
\<close>

theorem malformed_snapshot_leaves_backup:
  "fst (pushSnapshot rewriteSample idleShell ''/app''
          ''/app/appwrite/migration/v1/appwrite.config.json'' ''prod'' projectFiles)
     = Threw SnapshotUnreadable
   \<and> snd (pushSnapshot rewriteSample idleShell ''/app''
          ''/app/appwrite/migration/v1/appwrite.config.json'' ''prod'' projectFiles)
       ''/app/appwrite.config.json'' = projectFiles ''/app/appwrite.config.json''
   \<and> \<not> existsSync projectFiles ''/app/appwrite.config.json.bak''
   \<and> existsSync (snd (pushSnapshot rewriteSample idleShell ''/app''
          ''/app/appwrite/migration/v1/appwrite.config.json'' ''prod'' projectFiles))
       ''/app/appwrite.config.json.bak''"
proof -
  have s: "projectFiles ''/app/appwrite/migration/v1/appwrite.config.json'' = Some ''not json''"
    by (simp add: projectFiles_def)
  have r: "rewriteSample ''not json'' ''prod'' = None"
    by (simp add: rewriteSample_def)
  have p: "pathJoin ''/app'' SNAPSHOT_FILENAME = ''/app/appwrite.config.json''"
    by (simp add: pathJoin_def SNAPSHOT_FILENAME_def)
  have n: "''/app/appwrite/migration/v1/appwrite.config.json''
             \<noteq> pathJoin ''/app'' SNAPSHOT_FILENAME @ ''.bak''"
    unfolding p by simp
  have e: "existsSync projectFiles (pathJoin ''/app'' SNAPSHOT_FILENAME)"
    unfolding p by (simp add: existsSync_def projectFiles_def)
  have nb: "\<not> existsSync projectFiles ''/app/appwrite.config.json.bak''"
    by (simp add: existsSync_def projectFiles_def)
  have e': "projectFiles ''/app/appwrite.config.json'' \<noteq> None"
    using e unfolding p by (simp add: existsSync_def)
  show ?thesis
    unfolding pushSnapshot_unreadable[of projectFiles
        "''/app/appwrite/migration/v1/appwrite.config.json''" "''not json''" rewriteSample
        "''prod''" "''/app''" idleShell, OF s r n e] p
    using nb e' by (simp add: existsSync_def)
qed

section \<open>Properties of the runner\<close>

subsection \<open>Sequencing and the stages of a version\<close>

lemma andThen_None: "andThen None rest = None"
  by (simp add: andThen_def)

lemma andThen_Completed:
  "andThen (Some (Completed, es, s, n)) rest =
     (case rest s n of None \<Rightarrow> None
      | Some (out', es', s', n') \<Rightarrow> Some (out', es @ es', s', n'))"
  by (simp add: andThen_def)

lemma andThen_stop:
  "out \<noteq> Completed \<Longrightarrow> andThen (Some (out, es, s, n)) rest = Some (out, es, s, n)"
  by (simp add: andThen_def)

lemma andThen_assoc:
  "andThen (andThen x f) g = andThen x (\<lambda>s n. andThen (f s n) g)"
proof (cases x)
  case None
  then show ?thesis by (simp add: andThen_None)
next
  case (Some r)
  obtain out es s n where r: "r = (out, es, s, n)" by (cases r)
  show ?thesis
  proof (cases "out = Completed")
    case False
    then show ?thesis using Some r by (simp add: andThen_stop)
  next
    case True
    show ?thesis
    proof (cases "f s n")
      case None
      then show ?thesis using Some r True by (simp add: andThen_Completed andThen_None)
    next
      case (Some r')
      obtain out' es' s' n' where r': "r' = (out', es', s', n')" by (cases r')
      show ?thesis
        using \<open>x = Some r\<close> r True Some r'
        by (cases "out' = Completed"; cases "g s' n'")
           (auto simp: andThen_Completed andThen_stop andThen_None)
    qed
  qed
qed

lemma andThen_unit: "andThen x (\<lambda>s n. Some (Completed, [], s, n)) = x"
  by (cases x) (auto simp: andThen_def)

lemma runStages_Nil_fun: "runStages [] = (\<lambda>s n. Some (Completed, [], s, n))"
  by (intro ext) simp

lemma runStages_Cons_fun: "runStages (f # fs) = (\<lambda>s n. andThen (f s n) (runStages fs))"
  by (intro ext) simp

lemma runStages_single: "runStages [f] = f"
  by (intro ext) (simp add: runStages_Nil_fun andThen_unit)

lemma runStages_append:
  "runStages (xs @ ys) s n = andThen (runStages xs s n) (runStages ys)"
proof (induction xs arbitrary: s n)
  case Nil
  show ?case by (cases "runStages ys s n") (auto simp: andThen_Completed)
next
  case (Cons f fs)
  have "runStages (fs @ ys) = (\<lambda>s n. andThen (runStages fs s n) (runStages ys))"
    by (intro ext) (rule Cons.IH)
  then show ?case by (simp add: andThen_assoc)
qed

lemma andThen_result:
  assumes "andThen x rest = Some (out, es, s', n')"
  shows "(\<exists>o1. o1 \<noteq> Completed \<and> x = Some (o1, es, s', n') \<and> out = o1)
       \<or> (\<exists>e1 s1 n1 e2. x = Some (Completed, e1, s1, n1)
             \<and> rest s1 n1 = Some (out, e2, s', n') \<and> es = e1 @ e2)"
proof (cases x)
  case None
  with assms show ?thesis by (simp add: andThen_None)
next
  case (Some r)
  obtain o1 e1 s1 n1 where r: "r = (o1, e1, s1, n1)" by (cases r)
  show ?thesis
  proof (cases "o1 = Completed")
    case False
    with assms Some r show ?thesis by (simp add: andThen_stop)
  next
    case True
    with assms Some r show ?thesis
      by (cases "rest s1 n1") (auto simp: andThen_Completed)
  qed
qed

lemma upInvocations_append: "upInvocations (xs @ ys) = upInvocations xs @ upInvocations ys"
  by (simp add: upInvocations_def)

lemma recordsWritten_append: "recordsWritten (xs @ ys) = recordsWritten xs @ recordsWritten ys"
  by (simp add: recordsWritten_def)

lemma upInvocations_Poller: "upInvocations (map Poller es) = []"
  by (induction es) (simp_all add: upInvocations_def)

lemma recordsWritten_Poller: "recordsWritten (map Poller es) = []"
  by (induction es) (simp_all add: recordsWritten_def)

lemma quiet_append: "quiet (xs @ ys) = (quiet xs \<and> quiet ys)"
  by (auto simp: quiet_def upInvocations_append recordsWritten_append)

lemma backupHook_result:
  assumes "backupHook env cfg m s n = Some (out, es, s', n')"
  shows "s' = s \<and> n' = n \<and> quiet es \<and> (out = Completed \<or> out = ProcessExit 1)"
  using assms
  by (auto simp: backupHook_def quiet_def upInvocations_def recordsWritten_def split: if_splits)

lemma schemaSync_result:
  assumes "schemaSync env v s n = Some (out, es, s', n')"
  shows "s' = s \<and> n' = n \<and> quiet es \<and> (out = Completed \<or> out = ProcessExit 1)"
  using assms
  by (auto simp: schemaSync_def Let_def quiet_def upInvocations_def recordsWritten_def split: if_splits)

lemma attributePolling_result:
  assumes "attributePolling env v s n = Some (out, es, s', n')"
  shows "s' = s \<and> quiet es \<and> out = Completed"
  using assms
  by (auto simp: attributePolling_def Let_def quiet_def upInvocations_Poller recordsWritten_Poller
      upInvocations_def recordsWritten_def split: if_splits option.splits)

lemma preScript_result:
  assumes "runStages [backupHook env cfg m, schemaSync env v, attributePolling env v] s n
           = Some (out, es, s', n')"
  shows "s' = s \<and> quiet es \<and> (out = Completed \<or> out = ProcessExit 1)"
proof -
  from assms have a': "andThen (backupHook env cfg m s n)
      (\<lambda>s n. andThen (schemaSync env v s n) (attributePolling env v))
      = Some (out, es, s', n')"
    by (simp add: runStages_Cons_fun runStages_Nil_fun andThen_unit)
  from andThen_result[OF a'] show ?thesis
  proof
    assume "\<exists>o1. o1 \<noteq> Completed \<and> backupHook env cfg m s n = Some (o1, es, s', n') \<and> out = o1"
    then obtain o1 where o: "backupHook env cfg m s n = Some (o1, es, s', n')" "out = o1"
      by blast
    from backupHook_result[OF o(1)] o(2) show ?thesis by auto
  next
    assume "\<exists>e1 s1 n1 e2. backupHook env cfg m s n = Some (Completed, e1, s1, n1)
        \<and> andThen (schemaSync env v s1 n1) (attributePolling env v) = Some (out, e2, s', n')
        \<and> es = e1 @ e2"
    then obtain e1 s1 n1 e2 where b: "backupHook env cfg m s n = Some (Completed, e1, s1, n1)"
      and c: "andThen (schemaSync env v s1 n1) (attributePolling env v) = Some (out, e2, s', n')"
      and es: "es = e1 @ e2" by blast
    from backupHook_result[OF b] have b': "s1 = s" "quiet e1" by simp_all
    from andThen_result[OF c] show ?thesis
    proof
      assume "\<exists>o1. o1 \<noteq> Completed \<and> schemaSync env v s1 n1 = Some (o1, e2, s', n') \<and> out = o1"
      then obtain o1 where o: "schemaSync env v s1 n1 = Some (o1, e2, s', n')" "out = o1"
        by blast
      from schemaSync_result[OF o(1)] o(2) b' es show ?thesis by (auto simp: quiet_append)
    next
      assume "\<exists>e1' s1' n1' e2'. schemaSync env v s1 n1 = Some (Completed, e1', s1', n1')
          \<and> attributePolling env v s1' n1' = Some (out, e2', s', n') \<and> e2 = e1' @ e2'"
      then obtain e3 s3 n3 e4 where d: "schemaSync env v s1 n1 = Some (Completed, e3, s3, n3)"
        and e: "attributePolling env v s3 n3 = Some (out, e4, s', n')" and e2: "e2 = e3 @ e4"
        by blast
      from schemaSync_result[OF d] attributePolling_result[OF e] b' es e2
      show ?thesis by (auto simp: quiet_append)
    qed
  qed
qed

lemma loadDefinition_iff:
  "loadDefinition env v = Some (file, m, i) \<longleftrightarrow>
     validIndexFile env v = Some file
     \<and> (\<exists>d ns. jitiImport env file = Module d ns \<and> moduleDefault d ns = Some m)
     \<and> id_m m = Some i \<and> i \<noteq> []"
  by (auto simp: loadDefinition_def validMigration_def truthy_def
      split: option.splits import_result.splits if_splits)

lemma processVersion_apply:
  assumes "loadDefinition env v = Some (file, m, i)" and "i \<notin> applied"
  shows "processVersion env cfg applied v s n =
         andThen (Some (Completed, [JitiImport file, LogApplying v i], s, n))
           (runStages [backupHook env cfg m, schemaSync env v, attributePolling env v,
                       dataExecution v m, finalization i v])"
  using assms unfolding loadDefinition_iff
  by (auto simp: processVersion_def validMigration_def truthy_def)

lemma processVersion_skip:
  assumes "loadDefinition env v = Some (file, m, i)" and "i \<in> applied"
  shows "processVersion env cfg applied v s n =
         Some (Completed, [JitiImport file, LogAlreadyApplied v i], s, n)"
  using assms unfolding loadDefinition_iff
  by (auto simp: processVersion_def validMigration_def truthy_def)

lemma script_stages:
  "runStages [dataExecution v m, finalization i v] s n =
     (case up m of
        Some Throws \<Rightarrow> Some (ProcessExit 1, [LogExecuting, InvokeUp v, ErrorScriptFailed], s, n)
      | u \<Rightarrow>
         (case createDocument s i v of
            Inl c \<Rightarrow> Some (Rejected (RemoteError c),
                      LogExecuting # (if u = None then [] else [InvokeUp v])
                        @ [LogFinalizing, CreateDocument i v], s, n)
          | Inr s' \<Rightarrow> Some (Completed,
                      LogExecuting # (if u = None then [] else [InvokeUp v])
                        @ [LogFinalizing, CreateDocument i v, LogApplied v], s', n)))"
  by (simp add: dataExecution_def finalization_def andThen_def runStages_Nil_fun
      split: option.splits action.splits sum.splits)

lemma pipeline_shape:
  assumes "runStages [backupHook env cfg m, schemaSync env v, attributePolling env v,
                      dataExecution v m, finalization i v] s n = Some (out, es, s', n')"
  shows "\<exists>pre. quiet pre \<and>
     ((out = ProcessExit 1 \<and> es = pre \<and> s' = s)
      \<or> (up m = Some Throws \<and> out = ProcessExit 1 \<and> s' = s
           \<and> es = pre @ [LogExecuting, InvokeUp v, ErrorScriptFailed])
      \<or> (up m \<noteq> Some Throws \<and> (\<exists>c. createDocument s i v = Inl c \<and> out = Rejected (RemoteError c))
           \<and> s' = s
           \<and> es = pre @ LogExecuting # (if up m = None then [] else [InvokeUp v])
                    @ [LogFinalizing, CreateDocument i v])
      \<or> (up m \<noteq> Some Throws \<and> createDocument s i v = Inr s' \<and> out = Completed
           \<and> es = pre @ LogExecuting # (if up m = None then [] else [InvokeUp v])
                    @ [LogFinalizing, CreateDocument i v, LogApplied v]))"
proof -
  have "runStages ([backupHook env cfg m, schemaSync env v, attributePolling env v]
                   @ [dataExecution v m, finalization i v]) s n = Some (out, es, s', n')"
    using assms by simp
  then have a: "andThen (runStages [backupHook env cfg m, schemaSync env v, attributePolling env v] s n)
                 (runStages [dataExecution v m, finalization i v]) = Some (out, es, s', n')"
    by (simp only: runStages_append)
  from andThen_result[OF a] show ?thesis
  proof
    assume "\<exists>o1. o1 \<noteq> Completed
      \<and> runStages [backupHook env cfg m, schemaSync env v, attributePolling env v] s n
          = Some (o1, es, s', n') \<and> out = o1"
    then obtain o1 where o: "o1 \<noteq> Completed"
      "runStages [backupHook env cfg m, schemaSync env v, attributePolling env v] s n
          = Some (o1, es, s', n')" "out = o1" by blast
    from preScript_result[OF o(2)] o(1,3) show ?thesis by auto
  next
    assume "\<exists>e1 s1 n1 e2.
      runStages [backupHook env cfg m, schemaSync env v, attributePolling env v] s n
          = Some (Completed, e1, s1, n1)
      \<and> runStages [dataExecution v m, finalization i v] s1 n1 = Some (out, e2, s', n')
      \<and> es = e1 @ e2"
    then obtain e1 s1 n1 e2 where p:
      "runStages [backupHook env cfg m, schemaSync env v, attributePolling env v] s n
          = Some (Completed, e1, s1, n1)"
      and q: "runStages [dataExecution v m, finalization i v] s1 n1 = Some (out, e2, s', n')"
      and es: "es = e1 @ e2" by blast
    from preScript_result[OF p] have s1: "s1 = s" and qu: "quiet e1" by simp_all
    from q[unfolded script_stages s1] es qu show ?thesis
      by (intro exI[of _ e1]) (auto split: option.splits action.splits sum.splits)
  qed
qed

lemma quiet_simps:
  "quiet []"
  "quiet (JitiImport f # es) = quiet es"
  "quiet (LogApplying v i # es) = quiet es"
  "quiet (LogAlreadyApplied v i # es) = quiet es"
  by (simp_all add: quiet_def upInvocations_def recordsWritten_def)

lemma processVersion_not_loaded:
  assumes "loadDefinition env v = None"
  shows "\<exists>out es. processVersion env cfg applied v s n = Some (out, es, s, n) \<and> quiet es
           \<and> (out = Completed \<longrightarrow> validIndexFile env v = None)"
  using assms
  by (auto simp: loadDefinition_def processVersion_def quiet_def upInvocations_def
      recordsWritten_def split: option.splits import_result.splits)

lemma processVersion_applied_quiet:
  assumes "\<forall>i. definitionId env v = Some i \<longrightarrow> i \<in> applied"
  shows "\<exists>out es. processVersion env cfg applied v s n = Some (out, es, s, n) \<and> quiet es"
proof (cases "loadDefinition env v")
  case None
  then show ?thesis using processVersion_not_loaded by blast
next
  case (Some r)
  obtain fl m i where r: "r = (fl, m, i)" by (cases r)
  have "i \<in> applied" using assms Some r by (simp add: definitionId_def)
  then show ?thesis
    using processVersion_skip[of env v fl m i applied cfg s n] Some r
    by (simp add: quiet_simps)
qed

lemma runStages_quiet:
  assumes "\<forall>f \<in> set fs. \<forall>s n. \<exists>out es. f s n = Some (out, es, s, n) \<and> quiet es"
  shows "\<exists>out es. runStages fs s n = Some (out, es, s, n) \<and> quiet es"
  using assms
proof (induction fs)
  case Nil
  show ?case by (simp add: quiet_simps)
next
  case (Cons f fs)
  from Cons.prems obtain out es where f: "f s n = Some (out, es, s, n)" "quiet es"
    by (meson list.set_intros(1))
  from Cons obtain out' es' where r: "runStages fs s n = Some (out', es', s, n)" "quiet es'"
    by (meson list.set_intros(2))
  show ?case
  proof (cases "out = Completed")
    case True
    then show ?thesis using f r by (simp add: andThen_Completed quiet_append)
  next
    case False
    then show ?thesis using f by (simp add: andThen_stop)
  qed
qed

lemma run_fully_applied:
  assumes "\<forall>ids. getAppliedMigrations store = Inr ids \<longrightarrow>
             (\<forall>v \<in> set (discovered env). \<forall>i. definitionId env v = Some i \<longrightarrow> i \<in> set ids)"
  shows "\<exists>out es. runMigrations env cfg store = Some (out, es, store, 0)
            \<and> upInvocations es = [] \<and> recordsWritten es = []"
proof (cases "getAppliedMigrations store")
  case (Inl c)
  then show ?thesis
    by (simp add: runMigrations_def Let_def upInvocations_def recordsWritten_def)
next
  case (Inr ids)
  let ?fs = "map (processVersion env cfg (set ids)) (discovered env)
             @ [\<lambda>store' n. Some (Completed, [LogAllApplied], store', n)]"
  have "\<forall>f \<in> set ?fs. \<forall>s n. \<exists>out es. f s n = Some (out, es, s, n) \<and> quiet es"
    using assms Inr processVersion_applied_quiet
    by (auto simp: quiet_def upInvocations_def recordsWritten_def)
  from runStages_quiet[OF this, of store 0] obtain out es where
    r: "runStages ?fs store 0 = Some (out, es, store, 0)" and q: "quiet es" by blast
  show ?thesis
    using Inr r q
    by (simp add: runMigrations_def Let_def andThen_Completed quiet_def upInvocations_def
        recordsWritten_def)
qed

lemma createDocument_ids:
  assumes "createDocument s i v = Inr s'"
  shows "recordedIds s' = insert i (recordedIds s)"
  using assms
  by (cases s) (auto simp: createDocument_def recordedIds_def documents_def image_iff
      split: if_splits)

lemma processVersion_Completed_ids:
  assumes "processVersion env cfg applied v s n = Some (Completed, es, s', n')"
  shows "recordedIds s \<subseteq> recordedIds s'
       \<and> (\<forall>i. definitionId env v = Some i \<longrightarrow> i \<in> applied \<union> recordedIds s')"
proof (cases "loadDefinition env v")
  case None
  from processVersion_not_loaded[OF None, of cfg applied s n] assms
  show ?thesis using None by (auto simp: definitionId_def)
next
  case (Some r)
  obtain fl m i where r: "r = (fl, m, i)" by (cases r)
  have d: "definitionId env v = Some i" using Some r by (simp add: definitionId_def)
  show ?thesis
  proof (cases "i \<in> applied")
    case True
    from assms[unfolded processVersion_skip[OF Some[unfolded r] True]] d True
    show ?thesis by auto
  next
    case False
    from assms[unfolded processVersion_apply[OF Some[unfolded r] False]]
    obtain e2 where e2: "runStages [backupHook env cfg m, schemaSync env v,
        attributePolling env v, dataExecution v m, finalization i v] s n
          = Some (Completed, e2, s', n')"
      by (auto simp: andThen_Completed split: option.splits)
    from pipeline_shape[OF e2] have "createDocument s i v = Inr s'" by auto
    from createDocument_ids[OF this] d show ?thesis by auto
  qed
qed

lemma loop_Completed_ids:
  assumes "runStages (map (processVersion env cfg applied) vs) s n = Some (Completed, es, s', n')"
  shows "recordedIds s \<subseteq> recordedIds s'
       \<and> (\<forall>v \<in> set vs. \<forall>i. definitionId env v = Some i \<longrightarrow> i \<in> applied \<union> recordedIds s')"
  using assms
proof (induction vs arbitrary: s n es)
  case Nil
  then show ?case by simp
next
  case (Cons v vs)
  from Cons.prems have "andThen (processVersion env cfg applied v s n)
      (runStages (map (processVersion env cfg applied) vs)) = Some (Completed, es, s', n')"
    by simp
  from andThen_result[OF this] obtain e1 s1 n1 e2 where
    p: "processVersion env cfg applied v s n = Some (Completed, e1, s1, n1)"
    and q: "runStages (map (processVersion env cfg applied) vs) s1 n1 = Some (Completed, e2, s', n')"
    by auto
  from processVersion_Completed_ids[OF p] Cons.IH[OF q] show ?case by auto
qed

lemma getAppliedMigrations_ids:
  assumes "getAppliedMigrations s = Inr ids"
  shows "set ids \<subseteq> recordedIds s"
    and "length (documents s) \<le> 5000 \<Longrightarrow> set ids = recordedIds s"
proof -
  show "set ids \<subseteq> recordedIds s"
  proof (cases s)
    case (Collection docs)
    then have "ids = map fst (take 5000 docs)"
      using assms by (simp add: getAppliedMigrations_def listDocuments_def)
    then have "set ids = fst ` set (take 5000 docs)" by simp
    also have "\<dots> \<subseteq> fst ` set docs" by (intro image_mono set_take_subset)
    finally show ?thesis using Collection by (simp add: recordedIds_def documents_def)
  qed (use assms in \<open>auto simp: getAppliedMigrations_def listDocuments_def split: if_splits\<close>)
  show "set ids = recordedIds s" if "length (documents s) \<le> 5000"
  proof (cases s)
    case (Collection docs)
    then have "ids = map fst (take 5000 docs)"
      using assms by (simp add: getAppliedMigrations_def listDocuments_def)
    moreover have "take 5000 docs = docs" using that Collection by (simp add: documents_def)
    ultimately show ?thesis using Collection by (simp add: recordedIds_def documents_def)
  qed (use assms in \<open>auto simp: getAppliedMigrations_def listDocuments_def recordedIds_def
         documents_def split: if_splits\<close>)
qed

lemma run_twice:
  assumes "runMigrations env cfg store = Some (Completed, es1, store1, k)"
    and "length (documents store1) \<le> 5000"
  shows "\<exists>out es. runMigrations env cfg store1 = Some (out, es, store1, 0)
            \<and> upInvocations es = [] \<and> recordsWritten es = []"
proof -
  from assms(1) obtain ids where ids: "getAppliedMigrations store = Inr ids"
    and run: "andThen (Some (Completed,
        [LogStarting, LogConfiguringCli, ConfigureClient, LogCliConfigured,
         LogFoundVersions (length (discovered env)), ListDocuments], store, 0))
        (runStages (map (processVersion env cfg (set ids)) (discovered env)
                    @ [\<lambda>store' n. Some (Completed, [LogAllApplied], store', n)]))
      = Some (Completed, es1, store1, k)"
    by (auto simp: runMigrations_def Let_def split: if_splits sum.splits)
  from andThen_result[OF run] obtain e2 where
    "runStages (map (processVersion env cfg (set ids)) (discovered env)
                    @ [\<lambda>store' n. Some (Completed, [LogAllApplied], store', n)]) store 0
       = Some (Completed, e2, store1, k)" by auto
  then have "andThen (runStages (map (processVersion env cfg (set ids)) (discovered env)) store 0)
       (runStages [\<lambda>store' n. Some (Completed, [LogAllApplied], store', n)])
       = Some (Completed, e2, store1, k)"
    by (simp only: runStages_append)
  from andThen_result[OF this] obtain e3 s3 n3 e4 where
    loop: "runStages (map (processVersion env cfg (set ids)) (discovered env)) store 0
           = Some (Completed, e3, s3, n3)"
    and fin: "runStages [\<lambda>store' n. Some (Completed, [LogAllApplied], store', n)] s3 n3
           = Some (Completed, e4, store1, k)" by auto
  from fin have s3: "s3 = store1" by (simp add: andThen_Completed)
  from loop_Completed_ids[OF loop] s3 getAppliedMigrations_ids(1)[OF ids]
  have all: "\<forall>v \<in> set (discovered env). \<forall>i. definitionId env v = Some i \<longrightarrow> i \<in> recordedIds store1"
    by auto
  have "\<forall>ids'. getAppliedMigrations store1 = Inr ids' \<longrightarrow>
          (\<forall>v \<in> set (discovered env). \<forall>i. definitionId env v = Some i \<longrightarrow> i \<in> set ids')"
    using all getAppliedMigrations_ids(2)[OF _ assms(2)] by blast
  from run_fully_applied[OF this] show ?thesis .
qed

lemma processVersion_no_fetch:
  assumes "processVersion env cfg applied v s n = Some (out, es, s', n')"
  shows "ListDocuments \<notin> set es"
proof (cases "loadDefinition env v")
  case None
  from processVersion_not_loaded[OF None, of cfg applied s n] assms
  show ?thesis by (auto simp: quiet_def)
next
  case (Some r)
  obtain fl m i where r: "r = (fl, m, i)" by (cases r)
  show ?thesis
  proof (cases "i \<in> applied")
    case True
    from assms[unfolded processVersion_skip[OF Some[unfolded r] True]]
    show ?thesis by auto
  next
    case False
    from assms[unfolded processVersion_apply[OF Some[unfolded r] False]]
    obtain e2 where e2: "runStages [backupHook env cfg m, schemaSync env v,
        attributePolling env v, dataExecution v m, finalization i v] s n
          = Some (out, e2, s', n')" and es: "es = [JitiImport fl, LogApplying v i] @ e2"
      by (auto simp: andThen_Completed split: option.splits)
    from pipeline_shape[OF e2] es show ?thesis by (auto simp: quiet_def split: if_splits)
  qed
qed

lemma runStages_no_fetch:
  assumes "\<forall>f \<in> set fs. \<forall>s n out es s' n'. f s n = Some (out, es, s', n')
             \<longrightarrow> ListDocuments \<notin> set es"
    and "runStages fs s n = Some (out, es, s', n')"
  shows "ListDocuments \<notin> set es"
  using assms
proof (induction fs arbitrary: s n out es)
  case Nil
  then show ?case by simp
next
  case (Cons f fs)
  from Cons.prems(2) have a: "andThen (f s n) (runStages fs) = Some (out, es, s', n')" by simp
  from andThen_result[OF a] show ?case
  proof
    assume "\<exists>o1. o1 \<noteq> Completed \<and> f s n = Some (o1, es, s', n') \<and> out = o1"
    then show ?thesis using Cons.prems(1) by (meson list.set_intros(1))
  next
    assume "\<exists>e1 s1 n1 e2. f s n = Some (Completed, e1, s1, n1)
       \<and> runStages fs s1 n1 = Some (out, e2, s', n') \<and> es = e1 @ e2"
    then obtain e1 s1 n1 e2 where f: "f s n = Some (Completed, e1, s1, n1)"
      and r: "runStages fs s1 n1 = Some (out, e2, s', n')" and es: "es = e1 @ e2" by blast
    have "ListDocuments \<notin> set e1" using Cons.prems(1) f by (meson list.set_intros(1))
    moreover have "ListDocuments \<notin> set e2"
      using Cons.IH[OF _ r] Cons.prems(1) by (meson list.set_intros(2))
    ultimately show ?thesis using es by simp
  qed
qed

lemma run_fetches_once:
  assumes "runMigrations env cfg store = Some (out, es, store', k)"
    and "ListDocuments \<in> set es"
  shows "\<exists>rest. es = [LogStarting, LogConfiguringCli, ConfigureClient, LogCliConfigured,
                      LogFoundVersions (length (discovered env)), ListDocuments] @ rest
           \<and> ListDocuments \<notin> set rest"
proof -
  let ?start = "[LogStarting, LogConfiguringCli, ConfigureClient, LogCliConfigured,
                 LogFoundVersions (length (discovered env)), ListDocuments]"
  from assms have c: "cliConfigured env" "pathExists env (migrationsDir env)"
    by (auto simp: runMigrations_def split: if_splits)
  show ?thesis
  proof (cases "getAppliedMigrations store")
    case (Inl c')
    then show ?thesis using assms c by (simp add: runMigrations_def Let_def)
  next
    case (Inr ids)
    let ?fs = "map (processVersion env cfg (set ids)) (discovered env)
               @ [\<lambda>store' n. Some (Completed, [LogAllApplied], store', n)]"
    from assms(1) Inr c have "andThen (Some (Completed, ?start, store, 0)) (runStages ?fs)
        = Some (out, es, store', k)"
      by (simp add: runMigrations_def Let_def)
    from andThen_result[OF this] obtain e2 where
      r: "runStages ?fs store 0 = Some (out, e2, store', k)" and es: "es = ?start @ e2" by auto
    have "\<forall>f \<in> set ?fs. \<forall>s n out es s' n'. f s n = Some (out, es, s', n')
             \<longrightarrow> ListDocuments \<notin> set es"
      using processVersion_no_fetch by auto
    from runStages_no_fetch[OF this r] es show ?thesis by blast
  qed
qed

lemma demo_discovered: "discovered (demoEnv modules ok) = [''v1'', ''v2'']"
  by code_simp

lemma demo_loadAB:
  "loadDefinition (demoEnv modulesAB ok) ''v1'' =
     Some (''/app/appwrite/migration/v1/index.ts'',
           \<lparr>id_m = Some ''A'', description = None, requiresBackup = None,
              up = Some Resolves, down = None\<rparr>, ''A'')"
  "loadDefinition (demoEnv modulesAB ok) ''v2'' =
     Some (''/app/appwrite/migration/v2/index.ts'',
           \<lparr>id_m = Some ''B'', description = None, requiresBackup = Some True,
              up = Some Resolves, down = None\<rparr>, ''B'')"
  by code_simp+

lemma demo_first_run:
  "runMigrations (demoEnv modulesAB True) (demoConfig None) (Collection []) =
   Some (Completed,
     [LogStarting, LogConfiguringCli, ConfigureClient, LogCliConfigured,
      LogFoundVersions 2, ListDocuments,
      JitiImport ''/app/appwrite/migration/v1/index.ts'',
      LogApplying ''v1'' ''A'', WarnNoSnapshot ''v1'', LogExecuting,
      InvokeUp ''v1'', LogFinalizing, CreateDocument ''A'' ''v1'',
      LogApplied ''v1'', JitiImport ''/app/appwrite/migration/v2/index.ts'',
      LogApplying ''v2'' ''B'', WarnBackupCommandNotSet, WarnNoSnapshot ''v2'', LogExecuting,
      InvokeUp ''v2'', LogFinalizing, CreateDocument ''B'' ''v2'',
      LogApplied ''v2'', LogAllApplied],
     Collection [(''A'', ''v1''), (''B'', ''v2'')], 0)"
  by code_simp

lemma demo_validIndexFile:
  "validIndexFile (demoEnv modules ok) ''v1'' = Some ''/app/appwrite/migration/v1/index.ts''"
  "validIndexFile (demoEnv modules ok) ''v2'' = Some ''/app/appwrite/migration/v2/index.ts''"
  by code_simp+

lemma demo_no_snapshot:
  "\<not> pathExists (demoEnv modules ok) (snapshotPathOf (demoEnv modules ok) ''v1'')"
  "\<not> pathExists (demoEnv modules ok) (snapshotPathOf (demoEnv modules ok) ''v2'')"
  by code_simp+

lemma length_fillerDocs: "length fillerDocs = 5000"
proof -
  have a: "length ''01234'' = 5" and b: "length ''0123456789'' = 10" by simp_all
  show ?thesis unfolding fillerDocs_def length_map length_product a b by simp
qed

lemma fillerDocs_keys: "k \<in> fst ` set fillerDocs \<Longrightarrow> hd k = CHR ''m''"
proof -
  assume "k \<in> fst ` set fillerDocs"
  then obtain x where "k = fst ((\<lambda>(a, b, c, d). ([CHR ''m'', a, b, c, d], ''old'')) x)"
    unfolding fillerDocs_def set_map by blast
  then show ?thesis by (cases x) auto
qed

lemma fillerDocs_fresh: "''A'' \<notin> fst ` set fillerDocs" "''B'' \<notin> fst ` set fillerDocs"
  using fillerDocs_keys[of "''A''"] fillerDocs_keys[of "''B''"] by auto

lemma fetch_fillerDocs:
  "getAppliedMigrations (Collection (fillerDocs @ rest)) = Inr (map fst fillerDocs)"
  by (simp add: getAppliedMigrations_def listDocuments_def length_fillerDocs)

lemma demo_fields:
  "jitiImport (demoEnv modules ok) = modules"
  "cliConfigured (demoEnv modules ok)"
  "backupCommand (demoConfig cmd) = cmd"
  by (simp_all add: demoEnv_def demoConfig_def)

lemma demo_migrationsDir:
  "pathExists (demoEnv modules ok) (migrationsDir (demoEnv modules ok))"
  by code_simp

lemma demo_plain_version:
  "processVersion (demoEnv modulesPlain True) (demoConfig None) applied ''v1'' store n =
     (if ''A'' \<in> applied
      then Some (Completed, [JitiImport ''/app/appwrite/migration/v1/index.ts'',
                             LogAlreadyApplied ''v1'' ''A''], store, n)
      else case createDocument store ''A'' ''v1'' of
             Inl c \<Rightarrow> Some (Rejected (RemoteError c),
                        [JitiImport ''/app/appwrite/migration/v1/index.ts'',
                         LogApplying ''v1'' ''A'', WarnNoSnapshot ''v1'', LogExecuting,
                         InvokeUp ''v1'', LogFinalizing, CreateDocument ''A'' ''v1''], store, n)
           | Inr store' \<Rightarrow> Some (Completed,
                        [JitiImport ''/app/appwrite/migration/v1/index.ts'',
                         LogApplying ''v1'' ''A'', WarnNoSnapshot ''v1'', LogExecuting,
                         InvokeUp ''v1'', LogFinalizing, CreateDocument ''A'' ''v1'',
                         LogApplied ''v1''], store', n))"
  "processVersion (demoEnv modulesPlain True) (demoConfig None) applied ''v2'' store n =
     (if ''B'' \<in> applied
      then Some (Completed, [JitiImport ''/app/appwrite/migration/v2/index.ts'',
                             LogAlreadyApplied ''v2'' ''B''], store, n)
      else case createDocument store ''B'' ''v2'' of
             Inl c \<Rightarrow> Some (Rejected (RemoteError c),
                        [JitiImport ''/app/appwrite/migration/v2/index.ts'',
                         LogApplying ''v2'' ''B'', WarnNoSnapshot ''v2'', LogExecuting,
                         InvokeUp ''v2'', LogFinalizing, CreateDocument ''B'' ''v2''], store, n)
           | Inr store' \<Rightarrow> Some (Completed,
                        [JitiImport ''/app/appwrite/migration/v2/index.ts'',
                         LogApplying ''v2'' ''B'', WarnNoSnapshot ''v2'', LogExecuting,
                         InvokeUp ''v2'', LogFinalizing, CreateDocument ''B'' ''v2'',
                         LogApplied ''v2''], store', n))"
  by (simp_all add: processVersion_def demo_validIndexFile demo_no_snapshot
      modulesPlain_def demoModule_def moduleDefault_def validMigration_def truthy_def
      backupHook_def schemaSync_def attributePolling_def dataExecution_def finalization_def
      andThen_def demo_fields
      split: sum.splits)

lemma demo_plain_run:
  "runMigrations (demoEnv modulesPlain True) (demoConfig None) store =
     (case getAppliedMigrations store of
        Inl c \<Rightarrow> Some (Rejected (RemoteError c),
                   [LogStarting, LogConfiguringCli, ConfigureClient, LogCliConfigured,
                    LogFoundVersions 2, ListDocuments], store, 0)
      | Inr ids \<Rightarrow>
          andThen (Some (Completed,
                     [LogStarting, LogConfiguringCli, ConfigureClient, LogCliConfigured,
                      LogFoundVersions 2, ListDocuments], store, 0))
            (runStages
               [processVersion (demoEnv modulesPlain True) (demoConfig None) (set ids) ''v1'',
                processVersion (demoEnv modulesPlain True) (demoConfig None) (set ids) ''v2'',
                \<lambda>store' n. Some (Completed, [LogAllApplied], store', n)]))"
  by (simp add: runMigrations_def demo_fields demo_migrationsDir demo_discovered Let_def
      numeral_2_eq_2 split: sum.splits)

subsection \<open>Skipping what is applied\<close>

text \<open>
  Claim C1, as stated, says that a second run on the same versions after a completed run
  invokes no \<open>up\<close> action and writes no record. The applied identifiers are fetched by
  one query limited to 5000 records. With the 5000 records of earlier migrations in the
  tracking collection, a first run of \<open>v1\<close> and \<open>v2\<close> completes and records \<open>A\<close> and
  \<open>B\<close> after them; the second run fetches the first 5000 identifiers only, finds \<open>A\<close>
  pending, invokes its \<open>up\<close> action again and attempts the record write, which the
  collection refuses with a conflict (409): the run is rejected.
\<close>

theorem second_run_beyond_cap_counterexample:
  "length (documents (Collection fillerDocs)) = 5000
   \<and> runMigrations (demoEnv modulesPlain True) (demoConfig None) (Collection fillerDocs) =
     Some (Completed,
       [LogStarting, LogConfiguringCli, ConfigureClient, LogCliConfigured,
        LogFoundVersions 2, ListDocuments,
        JitiImport ''/app/appwrite/migration/v1/index.ts'',
        LogApplying ''v1'' ''A'', WarnNoSnapshot ''v1'', LogExecuting,
        InvokeUp ''v1'', LogFinalizing, CreateDocument ''A'' ''v1'',
        LogApplied ''v1'', JitiImport ''/app/appwrite/migration/v2/index.ts'',
        LogApplying ''v2'' ''B'', WarnNoSnapshot ''v2'', LogExecuting,
        InvokeUp ''v2'', LogFinalizing, CreateDocument ''B'' ''v2'',
        LogApplied ''v2'', LogAllApplied],
       Collection (fillerDocs @ [(''A'', ''v1''), (''B'', ''v2'')]), 0)
   \<and> runMigrations (demoEnv modulesPlain True) (demoConfig None)
       (Collection (fillerDocs @ [(''A'', ''v1''), (''B'', ''v2'')])) =
     Some (Rejected (RemoteError (Some 409)),
       [LogStarting, LogConfiguringCli, ConfigureClient, LogCliConfigured,
        LogFoundVersions 2, ListDocuments,
        JitiImport ''/app/appwrite/migration/v1/index.ts'',
        LogApplying ''v1'' ''A'', WarnNoSnapshot ''v1'', LogExecuting,
        InvokeUp ''v1'', LogFinalizing, CreateDocument ''A'' ''v1''],
       Collection (fillerDocs @ [(''A'', ''v1''), (''B'', ''v2'')]), 0)
   \<and> upInvocations
       [LogStarting, LogConfiguringCli, ConfigureClient, LogCliConfigured,
        LogFoundVersions 2, ListDocuments,
        JitiImport ''/app/appwrite/migration/v1/index.ts'',
        LogApplying ''v1'' ''A'', WarnNoSnapshot ''v1'', LogExecuting,
        InvokeUp ''v1'', LogFinalizing, CreateDocument ''A'' ''v1''] = [''v1'']
   \<and> recordsWritten
       [LogStarting, LogConfiguringCli, ConfigureClient, LogCliConfigured,
        LogFoundVersions 2, ListDocuments,
        JitiImport ''/app/appwrite/migration/v1/index.ts'',
        LogApplying ''v1'' ''A'', WarnNoSnapshot ''v1'', LogExecuting,
        InvokeUp ''v1'', LogFinalizing, CreateDocument ''A'' ''v1''] = [(''A'', ''v1'')]"
proof (intro conjI)
  show "length (documents (Collection fillerDocs)) = 5000"
    by (simp add: documents_def length_fillerDocs)
  have f: "getAppliedMigrations (Collection fillerDocs) = Inr (map fst fillerDocs)"
    using fetch_fillerDocs[of "[]"] by simp
  show "runMigrations (demoEnv modulesPlain True) (demoConfig None) (Collection fillerDocs) =
     Some (Completed,
       [LogStarting, LogConfiguringCli, ConfigureClient, LogCliConfigured,
        LogFoundVersions 2, ListDocuments,
        JitiImport ''/app/appwrite/migration/v1/index.ts'',
        LogApplying ''v1'' ''A'', WarnNoSnapshot ''v1'', LogExecuting,
        InvokeUp ''v1'', LogFinalizing, CreateDocument ''A'' ''v1'',
        LogApplied ''v1'', JitiImport ''/app/appwrite/migration/v2/index.ts'',
        LogApplying ''v2'' ''B'', WarnNoSnapshot ''v2'', LogExecuting,
        InvokeUp ''v2'', LogFinalizing, CreateDocument ''B'' ''v2'',
        LogApplied ''v2'', LogAllApplied],
       Collection (fillerDocs @ [(''A'', ''v1''), (''B'', ''v2'')]), 0)"
    unfolding demo_plain_run f
    by (simp add: demo_plain_version fillerDocs_fresh createDocument_def andThen_def)
  show "runMigrations (demoEnv modulesPlain True) (demoConfig None)
       (Collection (fillerDocs @ [(''A'', ''v1''), (''B'', ''v2'')])) =
     Some (Rejected (RemoteError (Some 409)),
       [LogStarting, LogConfiguringCli, ConfigureClient, LogCliConfigured,
        LogFoundVersions 2, ListDocuments,
        JitiImport ''/app/appwrite/migration/v1/index.ts'',
        LogApplying ''v1'' ''A'', WarnNoSnapshot ''v1'', LogExecuting,
        InvokeUp ''v1'', LogFinalizing, CreateDocument ''A'' ''v1''],
       Collection (fillerDocs @ [(''A'', ''v1''), (''B'', ''v2'')]), 0)"
    unfolding demo_plain_run fetch_fillerDocs
    by (simp add: demo_plain_version fillerDocs_fresh createDocument_def andThen_def)
qed (simp_all add: upInvocations_def recordsWritten_def)

text \<open>
  Claim C1, amended. A version whose loaded definition's id is in the applied-identifier
  set is skipped: its \<open>up\<close> action is not invoked and no record is written. So a run in
  which every loaded definition's id is in the fetched set invokes no \<open>up\<close> action,
  attempts no record write and leaves the tracking collection as it is; and after a
  completed run that leaves at most 5000 records in the tracking collection (the number
  one fetch returns), a second run on the same versions does so.
\<close>

theorem applied_versions_skipped:
  "(loadDefinition env version = Some (file, m, i) \<and> i \<in> applied \<longrightarrow>
      processVersion env cfg applied version store n =
        Some (Completed, [JitiImport file, LogAlreadyApplied version i], store, n)
      \<and> upInvocations [JitiImport file, LogAlreadyApplied version i] = []
      \<and> recordsWritten [JitiImport file, LogAlreadyApplied version i] = [])
   \<and> ((\<forall>ids. getAppliedMigrations store = Inr ids \<longrightarrow>
          (\<forall>v \<in> set (discovered env). \<forall>j. definitionId env v = Some j \<longrightarrow> j \<in> set ids)) \<longrightarrow>
      (\<exists>out es. runMigrations env cfg store = Some (out, es, store, 0)
          \<and> upInvocations es = [] \<and> recordsWritten es = []))
   \<and> (runMigrations env cfg store = Some (Completed, es1, store1, k)
        \<and> length (documents store1) \<le> 5000 \<longrightarrow>
      (\<exists>out es. runMigrations env cfg store1 = Some (out, es, store1, 0)
          \<and> upInvocations es = [] \<and> recordsWritten es = []))"
proof (intro conjI impI)
  assume a: "loadDefinition env version = Some (file, m, i) \<and> i \<in> applied"
  then show "processVersion env cfg applied version store n =
        Some (Completed, [JitiImport file, LogAlreadyApplied version i], store, n)"
    using processVersion_skip by blast
  show "upInvocations [JitiImport file, LogAlreadyApplied version i] = []"
    by (simp add: upInvocations_def)
  show "recordsWritten [JitiImport file, LogAlreadyApplied version i] = []"
    by (simp add: recordsWritten_def)
next
  assume "\<forall>ids. getAppliedMigrations store = Inr ids \<longrightarrow>
          (\<forall>v \<in> set (discovered env). \<forall>j. definitionId env v = Some j \<longrightarrow> j \<in> set ids)"
  then show "\<exists>out es. runMigrations env cfg store = Some (out, es, store, 0)
          \<and> upInvocations es = [] \<and> recordsWritten es = []"
    by (rule run_fully_applied)
next
  assume "runMigrations env cfg store = Some (Completed, es1, store1, k)
        \<and> length (documents store1) \<le> 5000"
  then show "\<exists>out es. runMigrations env cfg store1 = Some (out, es, store1, 0)
          \<and> upInvocations es = [] \<and> recordsWritten es = []"
    using run_twice by blast
qed

theorem applied_versions_skipped_witness:
  "loadDefinition (demoEnv modulesAB True) ''v1'' =
     Some (''/app/appwrite/migration/v1/index.ts'',
           \<lparr>id_m = Some ''A'', description = None, requiresBackup = None,
              up = Some Resolves, down = None\<rparr>, ''A'')
   \<and> processVersion (demoEnv modulesAB True) (demoConfig None) {''A''} ''v1''
        (Collection [(''A'', ''v1'')]) 0 =
      Some (Completed, [JitiImport ''/app/appwrite/migration/v1/index.ts'',
                        LogAlreadyApplied ''v1'' ''A''], Collection [(''A'', ''v1'')], 0)
   \<and> (\<exists>out es. runMigrations (demoEnv modulesAB True) (demoConfig None)
                  (Collection [(''B'', ''v2''), (''A'', ''v1'')])
          = Some (out, es, Collection [(''B'', ''v2''), (''A'', ''v1'')], 0)
          \<and> upInvocations es = [] \<and> recordsWritten es = [])
   \<and> length (documents (Collection [(''A'', ''v1''), (''B'', ''v2'')])) \<le> 5000
   \<and> (\<exists>out es. runMigrations (demoEnv modulesAB True) (demoConfig None)
                  (Collection [(''A'', ''v1''), (''B'', ''v2'')])
          = Some (out, es, Collection [(''A'', ''v1''), (''B'', ''v2'')], 0)
          \<and> upInvocations es = [] \<and> recordsWritten es = [])"
proof -
  let ?E = "demoEnv modulesAB True" and ?C = "demoConfig None"
  let ?m = "\<lparr>id_m = Some ''A'', description = None, requiresBackup = None,
              up = Some Resolves, down = None\<rparr>"
  have l: "loadDefinition ?E ''v1'' = Some (''/app/appwrite/migration/v1/index.ts'', ?m, ''A'')"
    by (rule demo_loadAB)
  have full: "\<forall>ids. getAppliedMigrations (Collection [(''B'', ''v2''), (''A'', ''v1'')]) = Inr ids \<longrightarrow>
          (\<forall>v \<in> set (discovered ?E). \<forall>j. definitionId ?E v = Some j \<longrightarrow> j \<in> set ids)"
    by (simp add: demo_discovered definitionId_def demo_loadAB getAppliedMigrations_def
        listDocuments_def)
  have len: "length (documents (Collection [(''A'', ''v1''), (''B'', ''v2'')])) \<le> 5000"
    by (simp add: documents_def)
  have a: "processVersion ?E ?C {''A''} ''v1'' (Collection [(''A'', ''v1'')]) 0 =
      Some (Completed, [JitiImport ''/app/appwrite/migration/v1/index.ts'',
                        LogAlreadyApplied ''v1'' ''A''], Collection [(''A'', ''v1'')], 0)"
    using applied_versions_skipped[of ?E "''v1''" "''/app/appwrite/migration/v1/index.ts''" ?m
        "''A''" "{''A''}" ?C "Collection [(''A'', ''v1'')]" 0] l by simp
  have b: "\<exists>out es. runMigrations ?E ?C (Collection [(''B'', ''v2''), (''A'', ''v1'')])
          = Some (out, es, Collection [(''B'', ''v2''), (''A'', ''v1'')], 0)
          \<and> upInvocations es = [] \<and> recordsWritten es = []"
    using applied_versions_skipped[of ?E _ _ _ _ _ ?C "Collection [(''B'', ''v2''), (''A'', ''v1'')]"]
      full by blast
  have c: "\<exists>out es. runMigrations ?E ?C (Collection [(''A'', ''v1''), (''B'', ''v2'')])
          = Some (out, es, Collection [(''A'', ''v1''), (''B'', ''v2'')], 0)
          \<and> upInvocations es = [] \<and> recordsWritten es = []"
    using applied_versions_skipped[of ?E _ _ _ _ _ ?C "Collection []" _ _
        "Collection [(''A'', ''v1''), (''B'', ''v2'')]" 0] demo_first_run len by blast
  from l a b len c show ?thesis by blast
qed

subsection \<open>The backup hook\<close>

text \<open>
  Claim C6. For a pending version whose definition has \<open>requiresBackup = true\<close>: when no
  backup command is configured, the runner logs a warning and goes on with the schema
  stage and the rest of the pipeline; when a backup command is configured and fails, the
  run aborts with exit status 1 after the failed command, before any schema push for that
  version, and no later version is processed.
\<close>

theorem backup_gating:
  assumes "loadDefinition env version = Some (file, m, i)"
    and "i \<notin> applied"
    and "requiresBackup m = Some True"
  shows "(\<not> truthy (backupCommand cfg) \<longrightarrow>
           processVersion env cfg applied version store n =
             andThen (Some (Completed,
                        [JitiImport file, LogApplying version i, WarnBackupCommandNotSet], store, n))
               (runStages [schemaSync env version, attributePolling env version,
                           dataExecution version m, finalization i version]))
       \<and> (truthy (backupCommand cfg) \<and> \<not> execAsync env (the (backupCommand cfg)) \<longrightarrow>
           processVersion env cfg applied version store n =
             Some (ProcessExit 1,
                   [JitiImport file, LogApplying version i, LogRunningBackup,
                    ExecBackup (the (backupCommand cfg)), ErrorBackupFailed], store, n)
           \<and> runStages (map (processVersion env cfg applied) (version # rest) @ later) store n =
               Some (ProcessExit 1,
                   [JitiImport file, LogApplying version i, LogRunningBackup,
                    ExecBackup (the (backupCommand cfg)), ErrorBackupFailed], store, n))"
proof (intro conjI impI)
  assume a: "\<not> truthy (backupCommand cfg)"
  have b: "backupHook env cfg m store n = Some (Completed, [WarnBackupCommandNotSet], store, n)"
    using a assms(3) by (simp add: backupHook_def)
  show "processVersion env cfg applied version store n =
             andThen (Some (Completed,
                        [JitiImport file, LogApplying version i, WarnBackupCommandNotSet], store, n))
               (runStages [schemaSync env version, attributePolling env version,
                           dataExecution version m, finalization i version])"
    unfolding processVersion_apply[OF assms(1,2)]
    by (cases "runStages [schemaSync env version, attributePolling env version,
                  dataExecution version m, finalization i version] store n")
       (auto simp: b andThen_Completed)
next
  assume a: "truthy (backupCommand cfg) \<and> \<not> execAsync env (the (backupCommand cfg))"
  have b: "backupHook env cfg m store n =
      Some (ProcessExit 1, [LogRunningBackup, ExecBackup (the (backupCommand cfg)),
            ErrorBackupFailed], store, n)"
    using a assms(3) by (simp add: backupHook_def)
  show p: "processVersion env cfg applied version store n =
             Some (ProcessExit 1,
                   [JitiImport file, LogApplying version i, LogRunningBackup,
                    ExecBackup (the (backupCommand cfg)), ErrorBackupFailed], store, n)"
    unfolding processVersion_apply[OF assms(1,2)]
    by (simp add: b andThen_Completed andThen_stop)
  show "runStages (map (processVersion env cfg applied) (version # rest) @ later) store n =
               Some (ProcessExit 1,
                   [JitiImport file, LogApplying version i, LogRunningBackup,
                    ExecBackup (the (backupCommand cfg)), ErrorBackupFailed], store, n)"
    by (simp add: p andThen_stop)
qed

lemma demo_backup_trace:
  "processVersion (demoEnv modulesAB True) (demoConfig None) {} ''v2'' (Collection []) 0 =
     Some (Completed,
           [JitiImport ''/app/appwrite/migration/v2/index.ts'', LogApplying ''v2'' ''B'',
            WarnBackupCommandNotSet, WarnNoSnapshot ''v2'', LogExecuting, InvokeUp ''v2'',
            LogFinalizing, CreateDocument ''B'' ''v2'', LogApplied ''v2''],
           Collection [(''B'', ''v2'')], 0)"
  by code_simp

theorem backup_gating_witness:
  "loadDefinition (demoEnv modulesAB False) ''v2'' =
     Some (''/app/appwrite/migration/v2/index.ts'',
           \<lparr>id_m = Some ''B'', description = None, requiresBackup = Some True,
              up = Some Resolves, down = None\<rparr>, ''B'')
   \<and> \<not> truthy (backupCommand (demoConfig None))
   \<and> processVersion (demoEnv modulesAB True) (demoConfig None) {} ''v2'' (Collection []) 0 =
       andThen (Some (Completed,
                  [JitiImport ''/app/appwrite/migration/v2/index.ts'', LogApplying ''v2'' ''B'',
                   WarnBackupCommandNotSet], Collection [], 0))
         (runStages [schemaSync (demoEnv modulesAB True) ''v2'',
                     attributePolling (demoEnv modulesAB True) ''v2'',
                     dataExecution ''v2'' \<lparr>id_m = Some ''B'', description = None,
                        requiresBackup = Some True, up = Some Resolves, down = None\<rparr>,
                     finalization ''B'' ''v2''])
   \<and> processVersion (demoEnv modulesAB True) (demoConfig None) {} ''v2'' (Collection []) 0 =
       Some (Completed,
           [JitiImport ''/app/appwrite/migration/v2/index.ts'', LogApplying ''v2'' ''B'',
            WarnBackupCommandNotSet, WarnNoSnapshot ''v2'', LogExecuting, InvokeUp ''v2'',
            LogFinalizing, CreateDocument ''B'' ''v2'', LogApplied ''v2''],
           Collection [(''B'', ''v2'')], 0)
   \<and> truthy (backupCommand (demoConfig (Some ''pg_dump'')))
   \<and> \<not> execAsync (demoEnv modulesAB False) (the (backupCommand (demoConfig (Some ''pg_dump''))))
   \<and> processVersion (demoEnv modulesAB False) (demoConfig (Some ''pg_dump'')) {} ''v2''
        (Collection []) 0 =
       Some (ProcessExit 1,
             [JitiImport ''/app/appwrite/migration/v2/index.ts'', LogApplying ''v2'' ''B'',
              LogRunningBackup, ExecBackup ''pg_dump'', ErrorBackupFailed], Collection [], 0)
   \<and> runStages (map (processVersion (demoEnv modulesAB False) (demoConfig (Some ''pg_dump'')) {})
                  [''v2'', ''v3'']) (Collection []) 0 =
       Some (ProcessExit 1,
             [JitiImport ''/app/appwrite/migration/v2/index.ts'', LogApplying ''v2'' ''B'',
              LogRunningBackup, ExecBackup ''pg_dump'', ErrorBackupFailed], Collection [], 0)"
proof -
  let ?m = "\<lparr>id_m = Some ''B'', description = None, requiresBackup = Some True,
              up = Some Resolves, down = None\<rparr>"
  have n: "''B'' \<notin> ({} :: string set)" by simp
  have r: "requiresBackup ?m = Some True" by simp
  have t1: "\<not> truthy (backupCommand (demoConfig None))"
    by (simp add: truthy_def demoConfig_def)
  have t2: "truthy (backupCommand (demoConfig (Some ''pg_dump'')))"
    by (simp add: truthy_def demoConfig_def)
  have c: "the (backupCommand (demoConfig (Some ''pg_dump''))) = ''pg_dump''"
    by (simp add: demoConfig_def)
  have x: "\<not> execAsync (demoEnv modulesAB False) (the (backupCommand (demoConfig (Some ''pg_dump''))))"
    by (simp add: demoEnv_def)
  from backup_gating[OF demo_loadAB(2)[of True] n r, of "demoConfig None" "Collection []" 0 "[]" "[]"]
    backup_gating[OF demo_loadAB(2)[of False] n r, of "demoConfig (Some ''pg_dump'')"
      "Collection []" 0 "[''v3'']" "[]"]
    demo_loadAB(2)[of False] t1 t2 x demo_backup_trace
  show ?thesis unfolding c by (simp add: andThen_stop)
qed

subsection \<open>The script stage\<close>

text \<open>
  Claim C7, as stated, fails: the runner guards the call with \<open>if (migration.up)\<close>, so a
  definition without an \<open>up\<close> action is recorded as applied with nothing executed. In
  this run the version \<open>v1\<close> is recorded and only the action of \<open>v2\<close> is invoked.
\<close>

theorem up_not_mandatory_counterexample:
  "runMigrations (demoEnv modulesNoUp True) (demoConfig None) (Collection []) =
     Some (Completed,
       [LogStarting, LogConfiguringCli, ConfigureClient, LogCliConfigured,
        LogFoundVersions 2, ListDocuments,
        JitiImport ''/app/appwrite/migration/v1/index.ts'',
        LogApplying ''v1'' ''A'', WarnNoSnapshot ''v1'', LogExecuting,
        LogFinalizing, CreateDocument ''A'' ''v1'', LogApplied ''v1'',
        JitiImport ''/app/appwrite/migration/v2/index.ts'',
        LogApplying ''v2'' ''B'', WarnNoSnapshot ''v2'', LogExecuting,
        InvokeUp ''v2'', LogFinalizing, CreateDocument ''B'' ''v2'',
        LogApplied ''v2'', LogAllApplied],
       Collection [(''A'', ''v1''), (''B'', ''v2'')], 0)
   \<and> recordsWritten
       [LogStarting, LogConfiguringCli, ConfigureClient, LogCliConfigured,
        LogFoundVersions 2, ListDocuments,
        JitiImport ''/app/appwrite/migration/v1/index.ts'',
        LogApplying ''v1'' ''A'', WarnNoSnapshot ''v1'', LogExecuting,
        LogFinalizing, CreateDocument ''A'' ''v1'', LogApplied ''v1'',
        JitiImport ''/app/appwrite/migration/v2/index.ts'',
        LogApplying ''v2'' ''B'', WarnNoSnapshot ''v2'', LogExecuting,
        InvokeUp ''v2'', LogFinalizing, CreateDocument ''B'' ''v2'',
        LogApplied ''v2'', LogAllApplied] = [(''A'', ''v1''), (''B'', ''v2'')]
   \<and> upInvocations
       [LogStarting, LogConfiguringCli, ConfigureClient, LogCliConfigured,
        LogFoundVersions 2, ListDocuments,
        JitiImport ''/app/appwrite/migration/v1/index.ts'',
        LogApplying ''v1'' ''A'', WarnNoSnapshot ''v1'', LogExecuting,
        LogFinalizing, CreateDocument ''A'' ''v1'', LogApplied ''v1'',
        JitiImport ''/app/appwrite/migration/v2/index.ts'',
        LogApplying ''v2'' ''B'', WarnNoSnapshot ''v2'', LogExecuting,
        InvokeUp ''v2'', LogFinalizing, CreateDocument ''B'' ''v2'',
        LogApplied ''v2'', LogAllApplied] = [''v2'']"
  by code_simp

lemma up_invocation_shape:
  assumes "loadDefinition env version = Some (file, m, i)"
    and "processVersion env cfg applied version store n = Some (out, es, store', n')"
  shows "(up m \<noteq> None \<longrightarrow>
            (LogExecuting \<in> set es \<longrightarrow> upInvocations es = [version])
          \<and> (recordsWritten es \<noteq> [] \<longrightarrow>
               (\<exists>pre post. es = pre @ [LogExecuting, InvokeUp version, LogFinalizing,
                                        CreateDocument i version] @ post
                  \<and> quiet pre \<and> upInvocations post = [] \<and> recordsWritten post = []))
          \<and> (store' \<noteq> store \<longrightarrow> InvokeUp version \<in> set es))
       \<and> (up m = None \<longrightarrow> upInvocations es = [])"
proof (cases "i \<in> applied")
  case True
  from assms(2)[unfolded processVersion_skip[OF assms(1) True]]
  show ?thesis by (auto simp: upInvocations_def recordsWritten_def)
next
  case False
  from assms(2)[unfolded processVersion_apply[OF assms(1) False]]
  obtain e2 where e2: "runStages [backupHook env cfg m, schemaSync env version,
      attributePolling env version, dataExecution version m, finalization i version] store n
        = Some (out, e2, store', n')"
    and es: "es = [JitiImport file, LogApplying version i] @ e2"
    by (auto simp: andThen_Completed split: option.splits)
  from pipeline_shape[OF e2] obtain pre where q: "quiet pre" and sh:
    "(out = ProcessExit 1 \<and> e2 = pre \<and> store' = store)
      \<or> (up m = Some Throws \<and> out = ProcessExit 1 \<and> store' = store
           \<and> e2 = pre @ [LogExecuting, InvokeUp version, ErrorScriptFailed])
      \<or> (up m \<noteq> Some Throws
           \<and> (\<exists>c. createDocument store i version = Inl c \<and> out = Rejected (RemoteError c))
           \<and> store' = store
           \<and> e2 = pre @ LogExecuting # (if up m = None then [] else [InvokeUp version])
                    @ [LogFinalizing, CreateDocument i version])
      \<or> (up m \<noteq> Some Throws \<and> createDocument store i version = Inr store' \<and> out = Completed
           \<and> e2 = pre @ LogExecuting # (if up m = None then [] else [InvokeUp version])
                    @ [LogFinalizing, CreateDocument i version, LogApplied version])"
    by blast
  let ?pre = "[JitiImport file, LogApplying version i] @ pre"
  have qp: "quiet ?pre" using q by (simp add: quiet_simps)
  from sh show ?thesis
  proof (elim disjE conjE exE)
    assume "e2 = pre" "store' = store"
    then show ?thesis using es qp by (auto simp: quiet_def)
  next
    assume "up m = Some Throws" "store' = store"
      "e2 = pre @ [LogExecuting, InvokeUp version, ErrorScriptFailed]"
    then show ?thesis using es qp
      by (auto simp: quiet_def upInvocations_def recordsWritten_def)
  next
    fix c assume a: "up m \<noteq> Some Throws" "store' = store"
      "e2 = pre @ LogExecuting # (if up m = None then [] else [InvokeUp version])
              @ [LogFinalizing, CreateDocument i version]"
    show ?thesis
    proof (cases "up m")
      case None
      then show ?thesis using a es qp by (auto simp: quiet_def upInvocations_def)
    next
      case (Some u)
      then have e: "es = ?pre @ [LogExecuting, InvokeUp version, LogFinalizing,
                                 CreateDocument i version] @ []"
        using a es by simp
      have "upInvocations es = [version]"
        unfolding e using qp by (simp add: quiet_def upInvocations_append) (simp add: upInvocations_def)
      moreover have "\<exists>pre post. es = pre @ [LogExecuting, InvokeUp version, LogFinalizing,
                                        CreateDocument i version] @ post
                  \<and> quiet pre \<and> upInvocations post = [] \<and> recordsWritten post = []"
        using e qp by (intro exI[of _ ?pre] exI[of _ "[]"])
          (simp add: upInvocations_def recordsWritten_def)
      ultimately show ?thesis using Some a(2) by simp
    qed
  next
    assume a: "up m \<noteq> Some Throws"
      "e2 = pre @ LogExecuting # (if up m = None then [] else [InvokeUp version])
              @ [LogFinalizing, CreateDocument i version, LogApplied version]"
    show ?thesis
    proof (cases "up m")
      case None
      then show ?thesis using a es qp by (auto simp: quiet_def upInvocations_def)
    next
      case (Some u)
      then have e: "es = ?pre @ [LogExecuting, InvokeUp version, LogFinalizing,
                                 CreateDocument i version] @ [LogApplied version]"
        using a es by simp
      have "upInvocations es = [version]"
        unfolding e using qp by (simp add: quiet_def upInvocations_append) (simp add: upInvocations_def)
      moreover have "\<exists>pre post. es = pre @ [LogExecuting, InvokeUp version, LogFinalizing,
                                        CreateDocument i version] @ post
                  \<and> quiet pre \<and> upInvocations post = [] \<and> recordsWritten post = []"
        using e qp by (intro exI[of _ ?pre] exI[of _ "[LogApplied version]"])
          (simp add: upInvocations_def recordsWritten_def)
      moreover have "InvokeUp version \<in> set es" unfolding e by simp
      ultimately show ?thesis using Some by simp
    qed
  qed
qed

lemma up_throws_shape:
  assumes "loadDefinition env version = Some (file, m, i)"
    and "processVersion env cfg applied version store n = Some (out, es, store', n')"
    and "up m = Some Throws"
  shows "recordsWritten es = [] \<and> store' = store
       \<and> (LogExecuting \<in> set es \<longrightarrow>
            out = ProcessExit 1
          \<and> (\<exists>pre. quiet pre \<and> es = pre @ [LogExecuting, InvokeUp version, ErrorScriptFailed]))"
proof (cases "i \<in> applied")
  case True
  from assms(2)[unfolded processVersion_skip[OF assms(1) True]]
  show ?thesis by (auto simp: recordsWritten_def)
next
  case False
  from assms(2)[unfolded processVersion_apply[OF assms(1) False]]
  obtain e2 where e2: "runStages [backupHook env cfg m, schemaSync env version,
      attributePolling env version, dataExecution version m, finalization i version] store n
        = Some (out, e2, store', n')"
    and es: "es = [JitiImport file, LogApplying version i] @ e2"
    by (auto simp: andThen_Completed split: option.splits)
  from pipeline_shape[OF e2] assms(3) obtain pre where q: "quiet pre" and sh:
    "(out = ProcessExit 1 \<and> e2 = pre \<and> store' = store)
      \<or> (out = ProcessExit 1 \<and> store' = store
           \<and> e2 = pre @ [LogExecuting, InvokeUp version, ErrorScriptFailed])"
    by auto
  let ?pre = "[JitiImport file, LogApplying version i] @ pre"
  have qp: "quiet ?pre" using q by (simp add: quiet_simps)
  from sh show ?thesis
  proof (elim disjE conjE)
    assume "e2 = pre" "store' = store"
    then show ?thesis using es qp by (auto simp: quiet_def)
  next
    assume a: "out = ProcessExit 1" "store' = store"
      "e2 = pre @ [LogExecuting, InvokeUp version, ErrorScriptFailed]"
    then have e: "es = ?pre @ [LogExecuting, InvokeUp version, ErrorScriptFailed]"
      using es by simp
    have "recordsWritten es = []"
      unfolding e using qp
      by (simp add: quiet_def recordsWritten_append) (simp add: recordsWritten_def)
    moreover have "\<exists>pre. quiet pre \<and> es = pre @ [LogExecuting, InvokeUp version, ErrorScriptFailed]"
      using e qp by blast
    ultimately show ?thesis using a by simp
  qed
qed

text \<open>
  Claim C7, amended. For every version whose loaded definition provides an \<open>up\<close> action:
  when the version reaches the script stage, the runner invokes that action exactly once,
  with a context that logs under the version's name; a record is written only when the
  action resolved, and the write comes right after that invocation and the message
  \<open>Finalizing...\<close>, nothing being invoked or recorded before or after; the tracking
  collection changes only then. When the action throws, the run aborts with exit status 1
  right after the invocation, nothing is recorded and the tracking collection is
  unchanged. A definition without an \<open>up\<close> action has nothing invoked.
\<close>

theorem up_invoked_before_record:
  assumes "loadDefinition env version = Some (file, m, i)"
    and "processVersion env cfg applied version store n = Some (out, es, store', n')"
  shows "(up m \<noteq> None \<longrightarrow>
            (LogExecuting \<in> set es \<longrightarrow> upInvocations es = [version])
          \<and> (recordsWritten es \<noteq> [] \<longrightarrow>
               up m = Some Resolves
             \<and> (\<exists>pre post. es = pre @ [LogExecuting, InvokeUp version, LogFinalizing,
                                        CreateDocument i version] @ post
                  \<and> quiet pre \<and> upInvocations post = [] \<and> recordsWritten post = []))
          \<and> (store' \<noteq> store \<longrightarrow> InvokeUp version \<in> set es \<and> up m = Some Resolves))
       \<and> (up m = Some Throws \<longrightarrow>
            recordsWritten es = [] \<and> store' = store
          \<and> (LogExecuting \<in> set es \<longrightarrow>
               out = ProcessExit 1
             \<and> (\<exists>pre. quiet pre
                  \<and> es = pre @ [LogExecuting, InvokeUp version, ErrorScriptFailed])))
       \<and> (up m = None \<longrightarrow> upInvocations es = [])"
proof -
  note shape = up_invocation_shape[OF assms]
  have throws: "recordsWritten es = [] \<and> store' = store
       \<and> (LogExecuting \<in> set es \<longrightarrow>
            out = ProcessExit 1
          \<and> (\<exists>pre. quiet pre \<and> es = pre @ [LogExecuting, InvokeUp version, ErrorScriptFailed]))"
    if "up m = Some Throws"
    using up_throws_shape[OF assms that] .
  have resolves: "up m = Some Resolves"
    if "up m \<noteq> None" "recordsWritten es \<noteq> [] \<or> store' \<noteq> store"
  proof -
    from that(1) obtain a where a: "up m = Some a" by auto
    show ?thesis
    proof (cases a)
      case Resolves
      with a show ?thesis by simp
    next
      case Throws
      with a throws that(2) show ?thesis by simp
    qed
  qed
  from shape throws resolves show ?thesis by blast
qed

lemma demo_up_trace:
  "processVersion (demoEnv modulesAB True) (demoConfig None) {} ''v1'' (Collection []) 0 =
     Some (Completed,
           [JitiImport ''/app/appwrite/migration/v1/index.ts'', LogApplying ''v1'' ''A'',
            WarnNoSnapshot ''v1'', LogExecuting, InvokeUp ''v1'',
            LogFinalizing, CreateDocument ''A'' ''v1'', LogApplied ''v1''],
           Collection [(''A'', ''v1'')], 0)"
  by code_simp

lemma demo_no_up_trace:
  "loadDefinition (demoEnv modulesNoUp True) ''v1'' =
     Some (''/app/appwrite/migration/v1/index.ts'',
           \<lparr>id_m = Some ''A'', description = None, requiresBackup = None,
              up = None, down = None\<rparr>, ''A'')"
  "processVersion (demoEnv modulesNoUp True) (demoConfig None) {} ''v1'' (Collection []) 0 =
     Some (Completed,
           [JitiImport ''/app/appwrite/migration/v1/index.ts'', LogApplying ''v1'' ''A'',
            WarnNoSnapshot ''v1'', LogExecuting,
            LogFinalizing, CreateDocument ''A'' ''v1'', LogApplied ''v1''],
           Collection [(''A'', ''v1'')], 0)"
  by code_simp+

lemma demo_throws_trace:
  "loadDefinition (demoEnv modulesThrows True) ''v1'' =
     Some (''/app/appwrite/migration/v1/index.ts'',
           \<lparr>id_m = Some ''A'', description = None, requiresBackup = None,
              up = Some Throws, down = None\<rparr>, ''A'')"
  "processVersion (demoEnv modulesThrows True) (demoConfig None) {} ''v1'' (Collection []) 0 =
     Some (ProcessExit 1,
           [JitiImport ''/app/appwrite/migration/v1/index.ts'', LogApplying ''v1'' ''A'',
            WarnNoSnapshot ''v1'', LogExecuting, InvokeUp ''v1'', ErrorScriptFailed],
           Collection [], 0)"
  by code_simp+

theorem up_invoked_before_record_witness:
  "loadDefinition (demoEnv modulesAB True) ''v1'' =
     Some (''/app/appwrite/migration/v1/index.ts'',
           \<lparr>id_m = Some ''A'', description = None, requiresBackup = None,
              up = Some Resolves, down = None\<rparr>, ''A'')
   \<and> processVersion (demoEnv modulesAB True) (demoConfig None) {} ''v1'' (Collection []) 0 =
     Some (Completed,
           [JitiImport ''/app/appwrite/migration/v1/index.ts'', LogApplying ''v1'' ''A'',
            WarnNoSnapshot ''v1'', LogExecuting, InvokeUp ''v1'',
            LogFinalizing, CreateDocument ''A'' ''v1'', LogApplied ''v1''],
           Collection [(''A'', ''v1'')], 0)
   \<and> upInvocations
         [JitiImport ''/app/appwrite/migration/v1/index.ts'', LogApplying ''v1'' ''A'',
          WarnNoSnapshot ''v1'', LogExecuting, InvokeUp ''v1'',
          LogFinalizing, CreateDocument ''A'' ''v1'', LogApplied ''v1''] = [''v1'']
   \<and> (\<exists>pre post.
         [JitiImport ''/app/appwrite/migration/v1/index.ts'', LogApplying ''v1'' ''A'',
          WarnNoSnapshot ''v1'', LogExecuting, InvokeUp ''v1'',
          LogFinalizing, CreateDocument ''A'' ''v1'', LogApplied ''v1'']
         = pre @ [LogExecuting, InvokeUp ''v1'', LogFinalizing, CreateDocument ''A'' ''v1''] @ post
         \<and> quiet pre \<and> upInvocations post = [] \<and> recordsWritten post = [])
   \<and> processVersion (demoEnv modulesNoUp True) (demoConfig None) {} ''v1'' (Collection []) 0 =
     Some (Completed,
           [JitiImport ''/app/appwrite/migration/v1/index.ts'', LogApplying ''v1'' ''A'',
            WarnNoSnapshot ''v1'', LogExecuting,
            LogFinalizing, CreateDocument ''A'' ''v1'', LogApplied ''v1''],
           Collection [(''A'', ''v1'')], 0)
   \<and> upInvocations
         [JitiImport ''/app/appwrite/migration/v1/index.ts'', LogApplying ''v1'' ''A'',
          WarnNoSnapshot ''v1'', LogExecuting,
          LogFinalizing, CreateDocument ''A'' ''v1'', LogApplied ''v1''] = []
   \<and> processVersion (demoEnv modulesThrows True) (demoConfig None) {} ''v1'' (Collection []) 0 =
     Some (ProcessExit 1,
           [JitiImport ''/app/appwrite/migration/v1/index.ts'', LogApplying ''v1'' ''A'',
            WarnNoSnapshot ''v1'', LogExecuting, InvokeUp ''v1'', ErrorScriptFailed],
           Collection [], 0)
   \<and> recordsWritten
         [JitiImport ''/app/appwrite/migration/v1/index.ts'', LogApplying ''v1'' ''A'',
          WarnNoSnapshot ''v1'', LogExecuting, InvokeUp ''v1'', ErrorScriptFailed] = []
   \<and> (\<exists>pre. quiet pre
         \<and> [JitiImport ''/app/appwrite/migration/v1/index.ts'', LogApplying ''v1'' ''A'',
            WarnNoSnapshot ''v1'', LogExecuting, InvokeUp ''v1'', ErrorScriptFailed]
           = pre @ [LogExecuting, InvokeUp ''v1'', ErrorScriptFailed])"
proof -
  let ?es = "[JitiImport ''/app/appwrite/migration/v1/index.ts'', LogApplying ''v1'' ''A'',
          WarnNoSnapshot ''v1'', LogExecuting, InvokeUp ''v1'',
          LogFinalizing, CreateDocument ''A'' ''v1'', LogApplied ''v1'']"
  have r: "recordsWritten ?es \<noteq> []" by (simp add: recordsWritten_def)
  from up_invoked_before_record[OF demo_loadAB(1)[of True] demo_up_trace] r
    up_invoked_before_record[OF demo_no_up_trace]
    up_invoked_before_record[OF demo_throws_trace]
    demo_loadAB(1)[of True] demo_up_trace demo_no_up_trace(2) demo_throws_trace(2)
  show ?thesis by simp
qed

subsection \<open>Invalid definitions\<close>

text \<open>
  Claim C8, as stated, fails in its first case. The loader gives the module itself as
  \<open>.default\<close> of a module without default export, so a module that has the named exports
  \<open>id\<close> and \<open>up\<close> passes the check and is applied like a definition: in this run \<open>v1\<close> is
  such a module, its \<open>up\<close> is invoked and the record \<open>A\<close> is written.
\<close>

theorem no_default_export_counterexample:
  "jitiImport (demoEnv modulesNamed True) ''/app/appwrite/migration/v1/index.ts'' =
     Module NoDefault \<lparr>id_m = Some ''A'', description = None, requiresBackup = None,
                         up = Some Resolves, down = None\<rparr>
   \<and> runMigrations (demoEnv modulesNamed True) (demoConfig None) (Collection []) =
     Some (Completed,
       [LogStarting, LogConfiguringCli, ConfigureClient, LogCliConfigured,
        LogFoundVersions 2, ListDocuments,
        JitiImport ''/app/appwrite/migration/v1/index.ts'',
        LogApplying ''v1'' ''A'', WarnNoSnapshot ''v1'', LogExecuting, InvokeUp ''v1'',
        LogFinalizing, CreateDocument ''A'' ''v1'', LogApplied ''v1'',
        JitiImport ''/app/appwrite/migration/v2/index.ts'',
        LogApplying ''v2'' ''B'', WarnNoSnapshot ''v2'', LogExecuting,
        InvokeUp ''v2'', LogFinalizing, CreateDocument ''B'' ''v2'',
        LogApplied ''v2'', LogAllApplied],
       Collection [(''A'', ''v1''), (''B'', ''v2'')], 0)"
  by code_simp

text \<open>
  Claim C8, amended. What the runner checks is the value the loader gives as \<open>.default\<close>:
  the default export, or for a module without one the module itself with its named
  exports. When that value is not an object, or its id is absent or the empty string, the
  run aborts with exit status 1 before anything is done for that version: the trace of
  the version holds the import and the error message only, so no backup command, no
  schema push, no polling, no \<open>up\<close> action and no record write, the tracking collection
  is unchanged, and no later version is processed.
\<close>

theorem invalid_definition_aborts:
  assumes "validIndexFile env version = Some file"
    and "jitiImport env file = Module d namedExports"
    and "d = Primitive
         \<or> (d = NoDefault \<and> (id_m namedExports = None \<or> id_m namedExports = Some []))
         \<or> (\<exists>m. d = Definition m \<and> (id_m m = None \<or> id_m m = Some []))"
  shows "processVersion env cfg applied version store n =
           Some (ProcessExit 1, [JitiImport file, ErrorInvalidMigration version], store, n)
       \<and> sideEffects [JitiImport file, ErrorInvalidMigration version] = []
       \<and> runStages (map (processVersion env cfg applied) (version # rest) @ later) store n =
           Some (ProcessExit 1, [JitiImport file, ErrorInvalidMigration version], store, n)"
proof -
  have v: "validMigration (moduleDefault d namedExports) = None"
    using assms(3) by (auto simp: validMigration_def moduleDefault_def truthy_def)
  have p: "processVersion env cfg applied version store n =
           Some (ProcessExit 1, [JitiImport file, ErrorInvalidMigration version], store, n)"
    using assms(1,2) v by (simp add: processVersion_def)
  then show ?thesis by (simp add: sideEffects_def andThen_stop)
qed

theorem invalid_definition_aborts_witness:
  "validIndexFile (demoEnv modulesInvalid True) ''v1'' = Some ''/app/appwrite/migration/v1/index.ts''
   \<and> jitiImport (demoEnv modulesInvalid True) ''/app/appwrite/migration/v1/index.ts''
       = Module NoDefault noExports
   \<and> id_m noExports = None
   \<and> processVersion (demoEnv modulesInvalid True) (demoConfig (Some ''pg_dump'')) {} ''v1''
        (Collection []) 0 =
      Some (ProcessExit 1, [JitiImport ''/app/appwrite/migration/v1/index.ts'',
                            ErrorInvalidMigration ''v1''], Collection [], 0)
   \<and> runStages (map (processVersion (demoEnv modulesInvalid True) (demoConfig (Some ''pg_dump'')) {})
                  [''v1'', ''v2'']) (Collection []) 0 =
      Some (ProcessExit 1, [JitiImport ''/app/appwrite/migration/v1/index.ts'',
                            ErrorInvalidMigration ''v1''], Collection [], 0)
   \<and> processVersion (demoEnv modulesInvalid True) (demoConfig (Some ''pg_dump'')) {} ''v2''
        (Collection []) 0 =
      Some (ProcessExit 1, [JitiImport ''/app/appwrite/migration/v2/index.ts'',
                            ErrorInvalidMigration ''v2''], Collection [], 0)
   \<and> processVersion (demoEnv (\<lambda>p. demoModule None None (Some Resolves)) True)
        (demoConfig (Some ''pg_dump'')) {} ''v1'' (Collection []) 0 =
      Some (ProcessExit 1, [JitiImport ''/app/appwrite/migration/v1/index.ts'',
                            ErrorInvalidMigration ''v1''], Collection [], 0)
   \<and> processVersion (demoEnv (\<lambda>p. Module Primitive noExports) True)
        (demoConfig (Some ''pg_dump'')) {} ''v1'' (Collection []) 0 =
      Some (ProcessExit 1, [JitiImport ''/app/appwrite/migration/v1/index.ts'',
                            ErrorInvalidMigration ''v1''], Collection [], 0)"
proof -
  let ?E = "demoEnv modulesInvalid True" and ?C = "demoConfig (Some ''pg_dump'')"
  let ?E' = "demoEnv (\<lambda>p. demoModule None None (Some Resolves)) True"
  let ?E'' = "demoEnv (\<lambda>p. Module Primitive noExports) True"
  let ?f1 = "''/app/appwrite/migration/v1/index.ts''"
  let ?f2 = "''/app/appwrite/migration/v2/index.ts''"
  let ?m2 = "\<lparr>id_m = Some [], description = None, requiresBackup = None,
               up = Some Resolves, down = None\<rparr>"
  let ?m3 = "\<lparr>id_m = None, description = None, requiresBackup = None,
               up = Some Resolves, down = None\<rparr>"
  have i1: "jitiImport ?E ?f1 = Module NoDefault noExports"
    by (simp add: demoEnv_def modulesInvalid_def)
  have i2: "jitiImport ?E ?f2 = Module (Definition ?m2) noExports"
    by (simp add: demoEnv_def modulesInvalid_def demoModule_def)
  have i3: "jitiImport ?E' ?f1 = Module (Definition ?m3) noExports"
    by (simp add: demoEnv_def demoModule_def)
  have i4: "jitiImport ?E'' ?f1 = Module Primitive noExports"
    by (simp add: demoEnv_def)
  have n: "id_m noExports = None" by (simp add: noExports_def)
  have d1: "NoDefault = Primitive
         \<or> (NoDefault = NoDefault \<and> (id_m noExports = None \<or> id_m noExports = Some []))
         \<or> (\<exists>m. NoDefault = Definition m \<and> (id_m m = None \<or> id_m m = Some []))"
    using n by simp
  have d2: "Definition ?m2 = Primitive
         \<or> (Definition ?m2 = NoDefault \<and> (id_m noExports = None \<or> id_m noExports = Some []))
         \<or> (\<exists>m. Definition ?m2 = Definition m \<and> (id_m m = None \<or> id_m m = Some []))"
    by simp
  have d3: "Definition ?m3 = Primitive
         \<or> (Definition ?m3 = NoDefault \<and> (id_m noExports = None \<or> id_m noExports = Some []))
         \<or> (\<exists>m. Definition ?m3 = Definition m \<and> (id_m m = None \<or> id_m m = Some []))"
    by simp
  have d4: "Primitive = Primitive
         \<or> (Primitive = NoDefault \<and> (id_m noExports = None \<or> id_m noExports = Some []))
         \<or> (\<exists>m. Primitive = Definition m \<and> (id_m m = None \<or> id_m m = Some []))"
    by simp
  from invalid_definition_aborts[OF demo_validIndexFile(1) i1 d1, of ?C "{}" "Collection []" 0 "[''v2'']" "[]"]
    invalid_definition_aborts[OF demo_validIndexFile(2) i2 d2, of ?C "{}" "Collection []" 0 "[]" "[]"]
    invalid_definition_aborts[OF demo_validIndexFile(1) i3 d3, of ?C "{}" "Collection []" 0 "[]" "[]"]
    invalid_definition_aborts[OF demo_validIndexFile(1) i4 d4, of ?C "{}" "Collection []" 0 "[]" "[]"]
    demo_validIndexFile(1)[of modulesInvalid True] i1 n
  show ?thesis by (simp add: andThen_stop)
qed

subsection \<open>The applied set is a snapshot\<close>

text \<open>
  Claim C9. The applied identifiers are fetched once, after the start-up messages and
  before anything is done for a version, and no later step fetches them again. The skip
  check reads that set only: a version whose id is not in it is applied, whatever the
  tracking collection holds by then. So when two pending versions share an id, the first
  is recorded and the \<open>up\<close> action of the second is invoked all the same, and only its
  record write fails on the conflict.
\<close>

theorem applied_set_fetched_once:
  "(runMigrations env cfg store = Some (out, es, store', k) \<and> ListDocuments \<in> set es \<longrightarrow>
      (\<exists>rest. es = [LogStarting, LogConfiguringCli, ConfigureClient, LogCliConfigured,
                     LogFoundVersions (length (discovered env)), ListDocuments] @ rest
          \<and> ListDocuments \<notin> set rest))
   \<and> (loadDefinition env v2 = Some (f2, m2, i) \<and> i \<notin> applied \<longrightarrow>
      processVersion env cfg applied v2 s n =
        andThen (Some (Completed, [JitiImport f2, LogApplying v2 i], s, n))
          (runStages [backupHook env cfg m2, schemaSync env v2, attributePolling env v2,
                      dataExecution v2 m2, finalization i v2]))
   \<and> (loadDefinition env v1 = Some (f1, m1, i) \<and> loadDefinition env v2 = Some (f2, m2, i)
        \<and> i \<notin> applied \<and> i \<notin> fst ` set docs
        \<and> requiresBackup m1 \<noteq> Some True \<and> requiresBackup m2 \<noteq> Some True
        \<and> \<not> pathExists env (snapshotPathOf env v1) \<and> \<not> pathExists env (snapshotPathOf env v2)
        \<and> up m1 = Some Resolves \<and> up m2 = Some Resolves \<longrightarrow>
      runStages (map (processVersion env cfg applied) (v1 # v2 # rest) @ later) (Collection docs) n =
        Some (Rejected (RemoteError (Some 409)),
              [JitiImport f1, LogApplying v1 i, WarnNoSnapshot v1, LogExecuting, InvokeUp v1,
               LogFinalizing, CreateDocument i v1, LogApplied v1,
               JitiImport f2, LogApplying v2 i, WarnNoSnapshot v2, LogExecuting, InvokeUp v2,
               LogFinalizing, CreateDocument i v2],
              Collection (docs @ [(i, v1)]), n))"
proof (intro conjI impI)
  assume "runMigrations env cfg store = Some (out, es, store', k) \<and> ListDocuments \<in> set es"
  then show "\<exists>rest. es = [LogStarting, LogConfiguringCli, ConfigureClient, LogCliConfigured,
                     LogFoundVersions (length (discovered env)), ListDocuments] @ rest
          \<and> ListDocuments \<notin> set rest"
    using run_fetches_once by blast
next
  assume "loadDefinition env v2 = Some (f2, m2, i) \<and> i \<notin> applied"
  then show "processVersion env cfg applied v2 s n =
        andThen (Some (Completed, [JitiImport f2, LogApplying v2 i], s, n))
          (runStages [backupHook env cfg m2, schemaSync env v2, attributePolling env v2,
                      dataExecution v2 m2, finalization i v2])"
    using processVersion_apply by blast
next
  assume a: "loadDefinition env v1 = Some (f1, m1, i) \<and> loadDefinition env v2 = Some (f2, m2, i)
        \<and> i \<notin> applied \<and> i \<notin> fst ` set docs
        \<and> requiresBackup m1 \<noteq> Some True \<and> requiresBackup m2 \<noteq> Some True
        \<and> \<not> pathExists env (snapshotPathOf env v1) \<and> \<not> pathExists env (snapshotPathOf env v2)
        \<and> up m1 = Some Resolves \<and> up m2 = Some Resolves"
  have pre: "runStages [backupHook env cfg m, schemaSync env v, attributePolling env v] st n
             = Some (Completed, [WarnNoSnapshot v], st, n)"
    if "requiresBackup m \<noteq> Some True" "\<not> pathExists env (snapshotPathOf env v)" for m v st
    using that
    by (simp add: backupHook_def schemaSync_def attributePolling_def Let_def andThen_Completed)
  have pipe: "runStages [backupHook env cfg m, schemaSync env v, attributePolling env v,
                         dataExecution v m, finalization i v] st n
      = (case createDocument st i v of
           Inl c \<Rightarrow> Some (Rejected (RemoteError c),
                     [WarnNoSnapshot v, LogExecuting, InvokeUp v, LogFinalizing,
                      CreateDocument i v], st, n)
         | Inr st' \<Rightarrow> Some (Completed,
                     [WarnNoSnapshot v, LogExecuting, InvokeUp v, LogFinalizing,
                      CreateDocument i v, LogApplied v], st', n))"
    if "requiresBackup m \<noteq> Some True" "\<not> pathExists env (snapshotPathOf env v)"
       "up m = Some Resolves" for m v st
  proof -
    have e: "[backupHook env cfg m, schemaSync env v, attributePolling env v,
              dataExecution v m, finalization i v]
             = [backupHook env cfg m, schemaSync env v, attributePolling env v]
               @ [dataExecution v m, finalization i v]" by simp
    have "runStages [backupHook env cfg m, schemaSync env v, attributePolling env v,
                     dataExecution v m, finalization i v] st n
          = andThen (Some (Completed, [WarnNoSnapshot v], st, n))
              (runStages [dataExecution v m, finalization i v])"
      unfolding e runStages_append pre[OF that(1,2)] by (rule refl)
    also have "\<dots> = (case createDocument st i v of
           Inl c \<Rightarrow> Some (Rejected (RemoteError c),
                     [WarnNoSnapshot v, LogExecuting, InvokeUp v, LogFinalizing,
                      CreateDocument i v], st, n)
         | Inr st' \<Rightarrow> Some (Completed,
                     [WarnNoSnapshot v, LogExecuting, InvokeUp v, LogFinalizing,
                      CreateDocument i v, LogApplied v], st', n))"
      unfolding andThen_Completed script_stages using that(3) by (simp split: sum.splits)
    finally show ?thesis .
  qed
  have c1: "createDocument (Collection docs) i v1 = Inr (Collection (docs @ [(i, v1)]))"
    using a by (simp add: createDocument_def)
  have c2: "createDocument (Collection (docs @ [(i, v1)])) i v2 = Inl (Some 409)"
    by (simp add: createDocument_def)
  from a have l1: "loadDefinition env v1 = Some (f1, m1, i)"
    and l2: "loadDefinition env v2 = Some (f2, m2, i)" and na: "i \<notin> applied"
    and b1: "requiresBackup m1 \<noteq> Some True" and b2: "requiresBackup m2 \<noteq> Some True"
    and s1: "\<not> pathExists env (snapshotPathOf env v1)"
    and s2: "\<not> pathExists env (snapshotPathOf env v2)"
    and u1: "up m1 = Some Resolves" and u2: "up m2 = Some Resolves" by simp_all
  have p1: "processVersion env cfg applied v1 (Collection docs) n =
      Some (Completed, [JitiImport f1, LogApplying v1 i, WarnNoSnapshot v1, LogExecuting,
              InvokeUp v1, LogFinalizing, CreateDocument i v1, LogApplied v1],
            Collection (docs @ [(i, v1)]), n)"
    unfolding processVersion_apply[OF l1 na] andThen_Completed pipe[OF b1 s1 u1] c1 by simp
  have p2: "processVersion env cfg applied v2 (Collection (docs @ [(i, v1)])) n =
      Some (Rejected (RemoteError (Some 409)),
            [JitiImport f2, LogApplying v2 i, WarnNoSnapshot v2, LogExecuting,
              InvokeUp v2, LogFinalizing, CreateDocument i v2],
            Collection (docs @ [(i, v1)]), n)"
    unfolding processVersion_apply[OF l2 na] andThen_Completed pipe[OF b2 s2 u2] c2 by simp
  show "runStages (map (processVersion env cfg applied) (v1 # v2 # rest) @ later) (Collection docs) n =
        Some (Rejected (RemoteError (Some 409)),
              [JitiImport f1, LogApplying v1 i, WarnNoSnapshot v1, LogExecuting, InvokeUp v1,
               LogFinalizing, CreateDocument i v1, LogApplied v1,
               JitiImport f2, LogApplying v2 i, WarnNoSnapshot v2, LogExecuting, InvokeUp v2,
               LogFinalizing, CreateDocument i v2],
              Collection (docs @ [(i, v1)]), n)"
    by (simp add: p1 p2 andThen_Completed andThen_stop)
qed

lemma demo_loadSame:
  "loadDefinition (demoEnv modulesSame ok) ''v1'' =
     Some (''/app/appwrite/migration/v1/index.ts'',
           \<lparr>id_m = Some ''A'', description = None, requiresBackup = None,
              up = Some Resolves, down = None\<rparr>, ''A'')"
  "loadDefinition (demoEnv modulesSame ok) ''v2'' =
     Some (''/app/appwrite/migration/v2/index.ts'',
           \<lparr>id_m = Some ''A'', description = None, requiresBackup = None,
              up = Some Resolves, down = None\<rparr>, ''A'')"
  by code_simp+

lemma demo_same_run:
  "runMigrations (demoEnv modulesSame True) (demoConfig None) (Collection []) =
     Some (Rejected (RemoteError (Some 409)),
       [LogStarting, LogConfiguringCli, ConfigureClient, LogCliConfigured,
        LogFoundVersions 2, ListDocuments,
        JitiImport ''/app/appwrite/migration/v1/index.ts'',
        LogApplying ''v1'' ''A'', WarnNoSnapshot ''v1'', LogExecuting, InvokeUp ''v1'',
        LogFinalizing, CreateDocument ''A'' ''v1'', LogApplied ''v1'',
        JitiImport ''/app/appwrite/migration/v2/index.ts'',
        LogApplying ''v2'' ''A'', WarnNoSnapshot ''v2'', LogExecuting, InvokeUp ''v2'',
        LogFinalizing, CreateDocument ''A'' ''v2''],
       Collection [(''A'', ''v1'')], 0)"
  by code_simp

theorem applied_set_fetched_once_witness:
  "runMigrations (demoEnv modulesSame True) (demoConfig None) (Collection []) =
     Some (Rejected (RemoteError (Some 409)),
       [LogStarting, LogConfiguringCli, ConfigureClient, LogCliConfigured,
        LogFoundVersions 2, ListDocuments,
        JitiImport ''/app/appwrite/migration/v1/index.ts'',
        LogApplying ''v1'' ''A'', WarnNoSnapshot ''v1'', LogExecuting, InvokeUp ''v1'',
        LogFinalizing, CreateDocument ''A'' ''v1'', LogApplied ''v1'',
        JitiImport ''/app/appwrite/migration/v2/index.ts'',
        LogApplying ''v2'' ''A'', WarnNoSnapshot ''v2'', LogExecuting, InvokeUp ''v2'',
        LogFinalizing, CreateDocument ''A'' ''v2''],
       Collection [(''A'', ''v1'')], 0)
   \<and> ListDocuments \<notin> set
       [JitiImport ''/app/appwrite/migration/v1/index.ts'',
        LogApplying ''v1'' ''A'', WarnNoSnapshot ''v1'', LogExecuting, InvokeUp ''v1'',
        LogFinalizing, CreateDocument ''A'' ''v1'', LogApplied ''v1'',
        JitiImport ''/app/appwrite/migration/v2/index.ts'',
        LogApplying ''v2'' ''A'', WarnNoSnapshot ''v2'', LogExecuting, InvokeUp ''v2'',
        LogFinalizing, CreateDocument ''A'' ''v2'']
   \<and> loadDefinition (demoEnv modulesSame True) ''v1'' =
       Some (''/app/appwrite/migration/v1/index.ts'',
           \<lparr>id_m = Some ''A'', description = None, requiresBackup = None,
              up = Some Resolves, down = None\<rparr>, ''A'')
   \<and> loadDefinition (demoEnv modulesSame True) ''v2'' =
       Some (''/app/appwrite/migration/v2/index.ts'',
           \<lparr>id_m = Some ''A'', description = None, requiresBackup = None,
              up = Some Resolves, down = None\<rparr>, ''A'')
   \<and> processVersion (demoEnv modulesSame True) (demoConfig None) {} ''v2''
        (Collection [(''A'', ''v1'')]) 0 =
       andThen (Some (Completed, [JitiImport ''/app/appwrite/migration/v2/index.ts'',
                                  LogApplying ''v2'' ''A''], Collection [(''A'', ''v1'')], 0))
         (runStages [backupHook (demoEnv modulesSame True) (demoConfig None)
                       \<lparr>id_m = Some ''A'', description = None, requiresBackup = None,
                          up = Some Resolves, down = None\<rparr>,
                     schemaSync (demoEnv modulesSame True) ''v2'',
                     attributePolling (demoEnv modulesSame True) ''v2'',
                     dataExecution ''v2'' \<lparr>id_m = Some ''A'', description = None,
                          requiresBackup = None, up = Some Resolves, down = None\<rparr>,
                     finalization ''A'' ''v2''])
   \<and> runStages (map (processVersion (demoEnv modulesSame True) (demoConfig None) {})
                  [''v1'', ''v2'']) (Collection []) 0 =
       Some (Rejected (RemoteError (Some 409)),
         [JitiImport ''/app/appwrite/migration/v1/index.ts'',
          LogApplying ''v1'' ''A'', WarnNoSnapshot ''v1'', LogExecuting, InvokeUp ''v1'',
          LogFinalizing, CreateDocument ''A'' ''v1'', LogApplied ''v1'',
          JitiImport ''/app/appwrite/migration/v2/index.ts'',
          LogApplying ''v2'' ''A'', WarnNoSnapshot ''v2'', LogExecuting, InvokeUp ''v2'',
          LogFinalizing, CreateDocument ''A'' ''v2''],
         Collection [(''A'', ''v1'')], 0)"
proof -
  let ?E = "demoEnv modulesSame True" and ?C = "demoConfig None"
  let ?m = "\<lparr>id_m = Some ''A'', description = None, requiresBackup = None,
              up = Some Resolves, down = None\<rparr>"
  let ?f1 = "''/app/appwrite/migration/v1/index.ts''"
  let ?f2 = "''/app/appwrite/migration/v2/index.ts''"
  let ?rest = "[JitiImport ''/app/appwrite/migration/v1/index.ts'',
        LogApplying ''v1'' ''A'', WarnNoSnapshot ''v1'', LogExecuting, InvokeUp ''v1'',
        LogFinalizing, CreateDocument ''A'' ''v1'', LogApplied ''v1'',
        JitiImport ''/app/appwrite/migration/v2/index.ts'',
        LogApplying ''v2'' ''A'', WarnNoSnapshot ''v2'', LogExecuting, InvokeUp ''v2'',
        LogFinalizing, CreateDocument ''A'' ''v2'']"
  have n: "''A'' \<notin> ({} :: string set)" by simp
  have d: "''A'' \<notin> fst ` set ([] :: (string \<times> string) list)" by simp
  have rb: "requiresBackup ?m \<noteq> Some True" by simp
  have u: "up ?m = Some Resolves" by simp
  have mem: "ListDocuments \<in> set ([LogStarting, LogConfiguringCli, ConfigureClient,
      LogCliConfigured, LogFoundVersions 2, ListDocuments] @ ?rest)" by simp
  have 1: "ListDocuments \<notin> set ?rest"
    using applied_set_fetched_once[of ?E ?C "Collection []" "Rejected (RemoteError (Some 409))"
        "[LogStarting, LogConfiguringCli, ConfigureClient, LogCliConfigured,
          LogFoundVersions 2, ListDocuments] @ ?rest" "Collection [(''A'', ''v1'')]" 0]
      demo_same_run mem
    by (simp add: demo_discovered)
  have 2: "processVersion ?E ?C {} ''v2'' (Collection [(''A'', ''v1'')]) 0 =
       andThen (Some (Completed, [JitiImport ?f2, LogApplying ''v2'' ''A''],
                      Collection [(''A'', ''v1'')], 0))
         (runStages [backupHook ?E ?C ?m, schemaSync ?E ''v2'', attributePolling ?E ''v2'',
                     dataExecution ''v2'' ?m, finalization ''A'' ''v2''])"
    using applied_set_fetched_once[of ?E ?C _ _ _ _ _ "''v2''" ?f2 ?m "''A''" "{}"
        "Collection [(''A'', ''v1'')]" 0]
      demo_loadSame(2)[of True] n by blast
  have 3: "runStages (map (processVersion ?E ?C {}) [''v1'', ''v2'']) (Collection []) 0 =
       Some (Rejected (RemoteError (Some 409)), ?rest, Collection [(''A'', ''v1'')], 0)"
    using applied_set_fetched_once[of ?E ?C _ _ _ _ _ "''v2''" ?f2 ?m "''A''" "{}" _ 0
        "''v1''" ?f1 ?m "[]" "[]" "[]"]
      demo_loadSame[of True] n d rb u demo_no_snapshot[of modulesSame True]
    by (simp add: andThen_stop)
  from demo_same_run 1 demo_loadSame[of True] 2 3 show ?thesis by simp
qed

end
